theory Spec2Isabelle
  imports Complex_Main "HOL-Library.Char_ord" "HOL-Library.List_Lexorder"
begin

section \<open>Data model (the SQLAlchemy models of app.py)\<close>

text \<open>
  Every model class is a record, every table a list of rows in table order. Integer
  columns and Python integers are \<open>int\<close>. The \<open>Float\<close> columns (prices, totals) have the
  type parameter \<open>'p\<close>: the arithmetic on them is passed in as \<open>'p float_ops\<close> and is
  never assumed to be associative or commutative, so whatever is proved holds for the
  machine arithmetic of the program as well. \<open>Product.category_id\<close> is a nullable foreign
  key (\<open>int option\<close>); the other columns are taken as set, as every row the program writes
  has them.
\<close>

record User =
  u_id :: int
  u_email :: string
  u_password :: string
  u_name :: string
  u_address :: string

record Category =
  cat_id :: int
  cat_name :: string

record 'p Product =
  p_id :: int
  p_name :: string
  p_description :: string
  p_price :: 'p
  p_image :: string
  p_category_id :: "int option"
  p_stock :: int

record 'p Order =
  o_id :: int
  o_user_id :: int
  o_total :: 'p
  o_date :: nat

record 'p OrderItem =
  oi_id :: int
  oi_order_id :: int
  oi_product_id :: int
  oi_quantity :: int
  oi_price :: 'p

record CartItem =
  ci_id :: int
  ci_user_id :: int
  ci_product_id :: int
  ci_quantity :: int

record 'p db =
  users :: "User list"
  categories :: "Category list"
  products :: "'p Product list"
  orders :: "'p Order list"
  order_items :: "'p OrderItem list"
  cart_items :: "CartItem list"

text \<open>
  Float arithmetic as the program uses it: the start value of \<open>sum\<close>, the addition of
  \<open>sum\<close>, and \<open>price * quantity\<close> (a float times an integer).
\<close>

record 'p float_ops =
  fzero :: 'p
  fadd :: "'p \<Rightarrow> 'p \<Rightarrow> 'p"
  fmul :: "'p \<Rightarrow> int \<Rightarrow> 'p"

text \<open>
  What a request can end in: an exception (the uncommitted session is discarded), or one
  of the flash messages or redirects of the routes.
  \<open>Not_enough_stock name stock\<close> is the message
  \<^verbatim>\<open>Not enough stock for {name}. Available: {stock}\<close>.
\<close>

datatype error = AttributeError | BadRequestKeyError | NotFound

datatype response =
    Cart_is_empty
  | Not_enough_stock string int
  | Order_placed
  | Added_to_cart
  | Email_already_registered
  | Registered
  | Invalid_credentials
  | Logged_in int

section \<open>Queries and row updates\<close>

text \<open>\<^verbatim>\<open>Product.query.get(id)\<close>, also behind the relationship \<^verbatim>\<open>item.product\<close>.\<close>

definition get_product :: "'p Product list \<Rightarrow> int \<Rightarrow> 'p Product option" where
  "get_product ps pid = find (\<lambda>p. p_id p = pid) ps"

text \<open>\<^verbatim>\<open>CartItem.query.filter_by(user_id=..., product_id=...).first()\<close>\<close>

definition first_cart_item :: "CartItem list \<Rightarrow> int \<Rightarrow> int \<Rightarrow> CartItem option" where
  "first_cart_item cs uid pid = find (\<lambda>c. ci_user_id c = uid \<and> ci_product_id c = pid) cs"

text \<open>\<^verbatim>\<open>CartItem.query.filter_by(user_id=current_user.id).all()\<close>\<close>

definition cart_of :: "int \<Rightarrow> CartItem list \<Rightarrow> CartItem list" where
  "cart_of uid cs = filter (\<lambda>c. ci_user_id c = uid) cs"

text \<open>\<^verbatim>\<open>User.query.filter_by(email=email).first()\<close>\<close>

definition first_user :: "User list \<Rightarrow> string \<Rightarrow> User option" where
  "first_user us email = find (\<lambda>u. u_email u = email) us"

text \<open>
  A write to a loaded row reaches the table as an UPDATE or DELETE on its primary key.
\<close>

definition set_stock :: "int \<Rightarrow> int \<Rightarrow> 'p Product list \<Rightarrow> 'p Product list" where
  "set_stock pid s ps = map (\<lambda>p. if p_id p = pid then p\<lparr>p_stock := s\<rparr> else p) ps"

definition set_quantity :: "int \<Rightarrow> int \<Rightarrow> CartItem list \<Rightarrow> CartItem list" where
  "set_quantity cid q cs = map (\<lambda>c. if ci_id c = cid then c\<lparr>ci_quantity := q\<rparr> else c) cs"

definition delete_cart_item :: "int \<Rightarrow> CartItem list \<Rightarrow> CartItem list" where
  "delete_cart_item cid cs = filter (\<lambda>c. ci_id c \<noteq> cid) cs"

text \<open>
  The primary key of an inserted row, as the default SQLite engine assigns it: 1 in an
  empty table, otherwise one more than the largest key in use.
\<close>

fun next_id :: "int list \<Rightarrow> int" where
  "next_id [] = 1"
| "next_id (x # xs) = fold max xs x + 1"

section \<open>Form and query-string access\<close>

text \<open>
  \<^verbatim>\<open>request.form\<close> and \<^verbatim>\<open>request.args\<close> are multi-dicts: a list of key/value pairs
  where indexing and \<^verbatim>\<open>get\<close> read the first value of a key (\<open>map_of\<close>) and
  \<^verbatim>\<open>items()\<close> yields each key once, with its first value.
\<close>

fun md_items :: "(string \<times> string) list \<Rightarrow> (string \<times> string) list" where
  "md_items [] = []"
| "md_items ((k, v) # kvs) = (k, v) # md_items (filter (\<lambda>kv. fst kv \<noteq> k) kvs)"

definition startswith :: "string \<Rightarrow> string \<Rightarrow> bool" where
  "startswith s p = (take (length p) s = p)"

text \<open>\<^verbatim>\<open>s.split(d)\<close> for a one-character separator: never an empty list.\<close>

fun py_split :: "char \<Rightarrow> string \<Rightarrow> string list" where
  "py_split d [] = [[]]"
| "py_split d (c # cs) =
     (if c = d then [] # py_split d cs
      else (c # hd (py_split d cs)) # tl (py_split d cs))"

text \<open>
  Python's builtin \<^verbatim>\<open>int\<close> on a string is a parameter \<open>py_int\<close> of the routes that call
  it: \<open>None\<close> stands for the ValueError. \<open>dec_int\<close> is the instance used to run the model
  on examples; it reads an optional sign followed by ASCII digits.
\<close>

definition digit_val :: "char \<Rightarrow> int" where
  "digit_val c = int (of_char c) - 48"

definition is_digit :: "char \<Rightarrow> bool" where
  "is_digit c = (48 \<le> (of_char c :: nat) \<and> (of_char c :: nat) \<le> 57)"

definition dec_nat :: "string \<Rightarrow> int option" where
  "dec_nat s = (if s \<noteq> [] \<and> list_all is_digit s
                then Some (foldl (\<lambda>a c. 10 * a + digit_val c) 0 s) else None)"

fun dec_int :: "string \<Rightarrow> int option" where
  "dec_int [] = None"
| "dec_int (c # cs) =
     (if c = CHR ''-'' then map_option uminus (dec_nat cs)
      else if c = CHR ''+'' then dec_nat cs
      else dec_nat (c # cs))"

section \<open>The catalog listing: route \<^verbatim>\<open>/\<close>\<close>

text \<open>
  \<^verbatim>\<open>Product.query.join(Category)\<close>: the inner join on the foreign key, one result row
  for every pair of a product and a category it references.
\<close>

definition join_category :: "'p Product list \<Rightarrow> Category list \<Rightarrow> 'p Product list" where
  "join_category ps cats =
     concat (map (\<lambda>p. map (\<lambda>c. p) (filter (\<lambda>c. p_category_id p = Some (cat_id c)) cats)) ps)"

text \<open>
  \<^verbatim>\<open>query.paginate(page=page, per_page=n, error_out=False)\<close> of Flask-SQLAlchemy: a page
  number below 1 is read as 1, and the items are those at offset \<open>(page - 1) * n\<close>, at
  most \<open>n\<close> of them.
\<close>

definition paginate :: "int \<Rightarrow> nat \<Rightarrow> 'a list \<Rightarrow> 'a list" where
  "paginate page per_page xs =
     (let page' = (if page < 1 then 1 else page)
      in take per_page (drop (nat (page' - 1) * per_page) xs))"

text \<open>
  \<open>contains name search\<close> is the database's \<^verbatim>\<open>name LIKE '%' || search || '%'\<close>, a
  parameter. The ORDER BY clauses are a stable sort on the column (ties stay in join
  order, reversed for the descending sort); strings compare bytewise.
  The result is what the template receives: the items of the page and all categories.
\<close>

definition home ::
  "(string \<Rightarrow> int option) \<Rightarrow> (string \<Rightarrow> string \<Rightarrow> bool) \<Rightarrow> (string \<times> string) list \<Rightarrow>
   ('p::linorder) db \<Rightarrow> 'p Product list \<times> Category list" where
  "home py_int contains args d =
     (let page = (case map_of args ''page'' of None \<Rightarrow> 1
                  | Some s \<Rightarrow> (case py_int s of None \<Rightarrow> 1 | Some n \<Rightarrow> n));
          search = map_of args ''search'';
          category_id = map_of args ''category'';
          sort = (case map_of args ''sort'' of None \<Rightarrow> ''name'' | Some s \<Rightarrow> s);
          query = join_category (products d) (categories d);
          query1 = (case search of None \<Rightarrow> query
                    | Some s \<Rightarrow> if s = [] then query
                               else filter (\<lambda>p. contains (p_name p) s) query);
          query2 = (case category_id of None \<Rightarrow> query1
                    | Some s \<Rightarrow> if s = [] then query1
                               else (case py_int s of None \<Rightarrow> query1
                                     | Some cid \<Rightarrow> filter (\<lambda>p. p_category_id p = Some cid) query1));
          query3 = (if sort = ''price_low'' then sort_key p_price query2
                    else if sort = ''price_high'' then rev (sort_key p_price query2)
                    else sort_key p_name query2)
      in (paginate page 6 query3, categories d))"

section \<open>The cart: routes \<^verbatim>\<open>/cart\<close> (POST) and \<^verbatim>\<open>/add_to_cart\<close>\<close>

definition sanitize :: "int \<Rightarrow> int" where
  "sanitize quantity = min (max 1 quantity) 100"

text \<open>
  One round of the update loop of \<^verbatim>\<open>cart\<close>, for the form field \<open>(key, val)\<close>: a field
  whose key does not start with \<^verbatim>\<open>quantity_\<close>, or whose id or value is not a number,
  leaves the cart as it is (\<^verbatim>\<open>continue\<close>).
\<close>

definition update_quantity ::
  "(string \<Rightarrow> int option) \<Rightarrow> int \<Rightarrow> string \<times> string \<Rightarrow> 'p db \<Rightarrow> 'p db" where
  "update_quantity py_int uid kv d =
     (if startswith (fst kv) ''quantity_'' then
        (let parts = py_split (CHR ''_'') (fst kv) in
         if length parts \<le> 1 then d
         else (case py_int (parts ! 1) of None \<Rightarrow> d
           | Some product_id \<Rightarrow>
          (case py_int (snd kv) of None \<Rightarrow> d
           | Some quantity \<Rightarrow>
          (case first_cart_item (cart_items d) uid product_id of None \<Rightarrow> d
           | Some cart_item \<Rightarrow>
               d\<lparr>cart_items :=
                   set_quantity (ci_id cart_item) (sanitize quantity) (cart_items d)\<rparr>))))
      else d)"

fun update_quantities ::
  "(string \<Rightarrow> int option) \<Rightarrow> int \<Rightarrow> (string \<times> string) list \<Rightarrow> 'p db \<Rightarrow> 'p db" where
  "update_quantities py_int uid [] d = d"
| "update_quantities py_int uid (kv # kvs) d =
     update_quantities py_int uid kvs (update_quantity py_int uid kv d)"

definition cart_post ::
  "(string \<Rightarrow> int option) \<Rightarrow> int \<Rightarrow> (string \<times> string) list \<Rightarrow> 'p db \<Rightarrow> 'p db" where
  "cart_post py_int uid form d =
     (if map_of form ''update'' \<noteq> None then update_quantities py_int uid (md_items form) d
      else (case map_of form ''remove'' of None \<Rightarrow> d
        | Some v \<Rightarrow>
       (case py_int v of None \<Rightarrow> d
        | Some product_id \<Rightarrow>
       (case first_cart_item (cart_items d) uid product_id of None \<Rightarrow> d
        | Some cart_item \<Rightarrow>
            d\<lparr>cart_items := delete_cart_item (ci_id cart_item) (cart_items d)\<rparr>))))"

definition add_to_cart :: "int \<Rightarrow> int \<Rightarrow> 'p db \<Rightarrow> (error + response) \<times> 'p db" where
  "add_to_cart uid product_id d =
     (case get_product (products d) product_id of
        None \<Rightarrow> (Inl NotFound, d)
      | Some product \<Rightarrow>
          (Inr Added_to_cart,
           (case first_cart_item (cart_items d) uid product_id of
              Some cart_item \<Rightarrow>
                d\<lparr>cart_items :=
                    set_quantity (ci_id cart_item) (min (ci_quantity cart_item + 1) 100)
                      (cart_items d)\<rparr>
            | None \<Rightarrow>
                d\<lparr>cart_items := cart_items d @
                    [\<lparr>ci_id = next_id (map ci_id (cart_items d)), ci_user_id = uid,
                      ci_product_id = product_id, ci_quantity = 1\<rparr>]\<rparr>)))"

section \<open>Checkout: route \<^verbatim>\<open>/checkout\<close> (POST)\<close>

text \<open>
  The first loop: the stock check. \<open>Inr None\<close> means every line passed. Reading
  \<^verbatim>\<open>item.product.stock\<close> of a line whose product row is missing raises AttributeError.
\<close>

fun check_stock ::
  "'p Product list \<Rightarrow> CartItem list \<Rightarrow> error + response option" where
  "check_stock ps [] = Inr None"
| "check_stock ps (item # items) =
     (case get_product ps (ci_product_id item) of
        None \<Rightarrow> Inl AttributeError
      | Some product \<Rightarrow>
          if p_stock product < ci_quantity item
          then Inr (Some (Not_enough_stock (p_name product) (p_stock product)))
          else check_stock ps items)"

text \<open>
  \<^verbatim>\<open>sum(item.product.price * item.quantity for item in cart_items)\<close>, with the
  accumulator of \<open>sum\<close> as an argument; \<open>py_sum\<close> is \<open>sum\<close> on a list of floats.
\<close>

fun cart_total ::
  "'p float_ops \<Rightarrow> 'p Product list \<Rightarrow> 'p \<Rightarrow> CartItem list \<Rightarrow> error + 'p" where
  "cart_total A ps acc [] = Inr acc"
| "cart_total A ps acc (item # items) =
     (case get_product ps (ci_product_id item) of
        None \<Rightarrow> Inl AttributeError
      | Some product \<Rightarrow>
          cart_total A ps (fadd A acc (fmul A (p_price product) (ci_quantity item))) items)"

definition py_sum :: "'p float_ops \<Rightarrow> 'p list \<Rightarrow> 'p" where
  "py_sum A xs = foldl (fadd A) (fzero A) xs"

text \<open>
  The second loop. Its body, for a line and the product row behind it: an OrderItem with
  the product's price, the stock decrement, the deletion of the line.
\<close>

definition place_item :: "int \<Rightarrow> CartItem \<Rightarrow> 'p Product \<Rightarrow> 'p db \<Rightarrow> 'p db" where
  "place_item order_id item product d =
     d\<lparr>order_items := order_items d @
          [\<lparr>oi_id = next_id (map oi_id (order_items d)), oi_order_id = order_id,
            oi_product_id = ci_product_id item, oi_quantity = ci_quantity item,
            oi_price = p_price product\<rparr>],
       products :=
          set_stock (p_id product) (max 0 (p_stock product - ci_quantity item)) (products d),
       cart_items := delete_cart_item (ci_id item) (cart_items d)\<rparr>"

fun place_items :: "int \<Rightarrow> CartItem list \<Rightarrow> 'p db \<Rightarrow> error + 'p db" where
  "place_items order_id [] d = Inr d"
| "place_items order_id (item # items) d =
     (case get_product (products d) (ci_product_id item) of
        None \<Rightarrow> Inl AttributeError
      | Some product \<Rightarrow> place_items order_id items (place_item order_id item product d))"

text \<open>
  The POST branch of \<^verbatim>\<open>checkout\<close> for the logged-in user \<open>uid\<close>, at time \<open>now\<close> (the
  default of \<^verbatim>\<open>Order.date\<close>). The database is returned as the request leaves it:
  unchanged on an early return or an exception, committed otherwise.
\<close>

definition checkout ::
  "'p float_ops \<Rightarrow> nat \<Rightarrow> int \<Rightarrow> 'p db \<Rightarrow> (error + response) \<times> 'p db" where
  "checkout A now uid d =
     (let cart = cart_of uid (cart_items d) in
      if cart = [] then (Inr Cart_is_empty, d)
      else (case check_stock (products d) cart of
          Inl e \<Rightarrow> (Inl e, d)
        | Inr (Some msg) \<Rightarrow> (Inr msg, d)
        | Inr None \<Rightarrow>
         (case cart_total A (products d) (fzero A) cart of
            Inl e \<Rightarrow> (Inl e, d)
          | Inr tot \<Rightarrow>
              (let new_order = \<lparr>o_id = next_id (map o_id (orders d)), o_user_id = uid,
                                o_total = tot, o_date = now\<rparr>
               in (case place_items (o_id new_order) cart
                          (d\<lparr>orders := orders d @ [new_order]\<rparr>) of
                     Inl e \<Rightarrow> (Inl e, d)
                   | Inr d' \<Rightarrow> (Inr Order_placed, d'))))))"

text \<open>\<^verbatim>\<open>order.items\<close>: the OrderItems that reference the order.\<close>

definition items_of_order :: "'p db \<Rightarrow> int \<Rightarrow> 'p OrderItem list" where
  "items_of_order d oid = filter (\<lambda>oi. oi_order_id oi = oid) (order_items d)"

section \<open>Accounts: routes \<^verbatim>\<open>/register\<close> and \<^verbatim>\<open>/login\<close> (POST)\<close>

text \<open>
  \<^verbatim>\<open>generate_password_hash\<close> and \<^verbatim>\<open>check_password_hash\<close> of werkzeug are the
  parameters \<open>gen\<close> (for this call: the salt is drawn inside) and \<open>chk\<close>. Indexing
  \<^verbatim>\<open>request.form\<close> with a missing key raises BadRequestKeyError.
\<close>

definition register ::
  "(string \<Rightarrow> string) \<Rightarrow> (string \<times> string) list \<Rightarrow> 'p db \<Rightarrow> (error + response) \<times> 'p db" where
  "register gen form d =
     (case map_of form ''email'' of None \<Rightarrow> (Inl BadRequestKeyError, d) | Some email \<Rightarrow>
     (case map_of form ''password'' of None \<Rightarrow> (Inl BadRequestKeyError, d) | Some pw \<Rightarrow>
     (case map_of form ''name'' of None \<Rightarrow> (Inl BadRequestKeyError, d) | Some name \<Rightarrow>
     (case map_of form ''address'' of None \<Rightarrow> (Inl BadRequestKeyError, d) | Some address \<Rightarrow>
        if first_user (users d) email \<noteq> None then (Inr Email_already_registered, d)
        else (Inr Registered,
              d\<lparr>users := users d @
                  [\<lparr>u_id = next_id (map u_id (users d)), u_email = email,
                    u_password = gen pw, u_name = name, u_address = address\<rparr>]\<rparr>)))))"

definition login ::
  "(string \<Rightarrow> string \<Rightarrow> bool) \<Rightarrow> (string \<times> string) list \<Rightarrow> 'p db \<Rightarrow> error + response" where
  "login chk form d =
     (case map_of form ''email'' of None \<Rightarrow> Inl BadRequestKeyError | Some email \<Rightarrow>
     (case map_of form ''password'' of None \<Rightarrow> Inl BadRequestKeyError | Some pw \<Rightarrow>
     (case first_user (users d) email of
        None \<Rightarrow> Inr Invalid_credentials
      | Some user \<Rightarrow>
          if chk (u_password user) pw then Inr (Logged_in (u_id user))
          else Inr Invalid_credentials)))"

section \<open>Notions used to state the properties\<close>

text \<open>Two product rows that agree in every column but the stock.\<close>

definition same_but_stock :: "'p Product \<Rightarrow> 'p Product \<Rightarrow> bool" where
  "same_but_stock p p' = (p' = p\<lparr>p_stock := p_stock p'\<rparr>)"

text \<open>
  The quantities of the lines of a cart that name product \<open>pid\<close>, in cart order, their
  sum, and the stock that the decrements of the second loop leave, one after the other.
\<close>

definition quantities_for :: "int \<Rightarrow> CartItem list \<Rightarrow> int list" where
  "quantities_for pid cs = map ci_quantity (filter (\<lambda>c. ci_product_id c = pid) cs)"

definition purchased_quantity :: "int \<Rightarrow> CartItem list \<Rightarrow> int" where
  "purchased_quantity pid cs = sum_list (quantities_for pid cs)"

fun dec_all :: "int \<Rightarrow> int list \<Rightarrow> int" where
  "dec_all s [] = s"
| "dec_all s (q # qs) = dec_all (max 0 (s - q)) qs"

text \<open>
  An OrderItem is the snapshot of a cart line for order \<open>oid\<close>: it carries the line's
  product and quantity and the price that the product has in the table \<open>ps\<close>.
\<close>

definition snapshot_of :: "'p Product list \<Rightarrow> int \<Rightarrow> CartItem \<Rightarrow> 'p OrderItem \<Rightarrow> bool" where
  "snapshot_of ps oid c oi =
     (oi_order_id oi = oid \<and> oi_product_id oi = ci_product_id c \<and>
      oi_quantity oi = ci_quantity c \<and>
      (case get_product ps (ci_product_id c) of None \<Rightarrow> False
       | Some p \<Rightarrow> oi_price oi = p_price p))"

text \<open>The invariants of the cart table: quantities in [1,100], one line per user and product.\<close>

definition quantity_ok :: "CartItem \<Rightarrow> bool" where
  "quantity_ok c = (1 \<le> ci_quantity c \<and> ci_quantity c \<le> 100)"

definition quantities_ok :: "'p db \<Rightarrow> bool" where
  "quantities_ok d = list_all quantity_ok (cart_items d)"

definition line_key :: "CartItem \<Rightarrow> int \<times> int" where
  "line_key c = (ci_user_id c, ci_product_id c)"

definition one_line_per_product :: "'p db \<Rightarrow> bool" where
  "one_line_per_product d = distinct (map line_key (cart_items d))"

text \<open>
  The databases that the routes modelled here produce from \<open>d0\<close>, one request after the
  other, each for any user and any input.
\<close>

inductive reachable :: "'p db \<Rightarrow> 'p db \<Rightarrow> bool" for d0 :: "'p db" where
  start: "reachable d0 d0"
| by_add_to_cart: "reachable d0 d \<Longrightarrow> reachable d0 (snd (add_to_cart uid product_id d))"
| by_cart_post: "reachable d0 d \<Longrightarrow> reachable d0 (cart_post py_int uid form d)"
| by_checkout: "reachable d0 d \<Longrightarrow> reachable d0 (snd (checkout A now uid d))"
| by_register: "reachable d0 d \<Longrightarrow> reachable d0 (snd (register gen form d))"

section \<open>Example data\<close>

text \<open>
  A small shop with prices in the reals: user 1 holds two units of A and one of B, user 2
  asks for 15 units of A, of which 10 are in stock. Product C has no category, product D
  references a category that does not exist. \<open>demo_placed\<close> is the shop after the
  checkout of user 1 at time 7. \<open>toy_hash\<close> and \<open>toy_check\<close> stand in for the password
  hashing library.
\<close>

definition real_ops :: "real float_ops" where
  "real_ops = \<lparr>fzero = 0, fadd = (+), fmul = (\<lambda>p q. p * of_int q)\<rparr>"

definition prod_A :: "real Product" where
  "prod_A = \<lparr>p_id = 1, p_name = ''A'', p_description = [], p_price = 5, p_image = [],
             p_category_id = Some 1, p_stock = 10\<rparr>"

definition prod_B :: "real Product" where
  "prod_B = \<lparr>p_id = 2, p_name = ''B'', p_description = [], p_price = 10, p_image = [],
             p_category_id = Some 1, p_stock = 3\<rparr>"

definition prod_C :: "real Product" where
  "prod_C = \<lparr>p_id = 3, p_name = ''C'', p_description = [], p_price = 7, p_image = [],
             p_category_id = None, p_stock = 1\<rparr>"

definition prod_D :: "real Product" where
  "prod_D = \<lparr>p_id = 4, p_name = ''D'', p_description = [], p_price = 8, p_image = [],
             p_category_id = Some 9, p_stock = 4\<rparr>"

definition line_1 :: CartItem where
  "line_1 = \<lparr>ci_id = 1, ci_user_id = 1, ci_product_id = 1, ci_quantity = 2\<rparr>"

definition line_2 :: CartItem where
  "line_2 = \<lparr>ci_id = 2, ci_user_id = 1, ci_product_id = 2, ci_quantity = 1\<rparr>"

definition line_3 :: CartItem where
  "line_3 = \<lparr>ci_id = 3, ci_user_id = 2, ci_product_id = 1, ci_quantity = 15\<rparr>"

definition demo_user :: User where
  "demo_user = \<lparr>u_id = 1, u_email = ''demo@example.com'', u_password = ''#123456'',
                u_name = ''Demo User'', u_address = ''123 Demo St, City''\<rparr>"

definition demo :: "real db" where
  "demo =
     \<lparr>users = [demo_user],
      categories = [\<lparr>cat_id = 1, cat_name = ''Home''\<rparr>],
      products = [prod_A, prod_B, prod_C, prod_D],
      orders = [\<lparr>o_id = 1, o_user_id = 2, o_total = 7, o_date = 0\<rparr>],
      order_items =
        [\<lparr>oi_id = 1, oi_order_id = 1, oi_product_id = 3, oi_quantity = 1, oi_price = 7\<rparr>],
      cart_items = [line_1, line_2, line_3]\<rparr>"

definition demo_placed :: "real db" where
  "demo_placed =
     demo\<lparr>products := [prod_A\<lparr>p_stock := 8\<rparr>, prod_B\<lparr>p_stock := 2\<rparr>, prod_C, prod_D],
          orders :=
            [\<lparr>o_id = 1, o_user_id = 2, o_total = 7, o_date = 0\<rparr>,
             \<lparr>o_id = 2, o_user_id = 1, o_total = 20, o_date = 7\<rparr>],
          order_items :=
            [\<lparr>oi_id = 1, oi_order_id = 1, oi_product_id = 3, oi_quantity = 1, oi_price = 7\<rparr>,
             \<lparr>oi_id = 2, oi_order_id = 2, oi_product_id = 1, oi_quantity = 2, oi_price = 5\<rparr>,
             \<lparr>oi_id = 3, oi_order_id = 2, oi_product_id = 2, oi_quantity = 1, oi_price = 10\<rparr>],
          cart_items := [line_3]\<rparr>"

text \<open>
  The same shop with a cart table that holds two lines of user 1 for product A, of 10
  units and of 1 unit, and \<open>dup_placed\<close>, the shop after the checkout of that cart.
\<close>

definition dup_line_1 :: CartItem where
  "dup_line_1 = \<lparr>ci_id = 1, ci_user_id = 1, ci_product_id = 1, ci_quantity = 10\<rparr>"

definition dup_line_2 :: CartItem where
  "dup_line_2 = \<lparr>ci_id = 2, ci_user_id = 1, ci_product_id = 1, ci_quantity = 1\<rparr>"

definition dup_demo :: "real db" where
  "dup_demo = demo\<lparr>cart_items := [dup_line_1, dup_line_2]\<rparr>"

definition dup_placed :: "real db" where
  "dup_placed =
     demo\<lparr>products := [prod_A\<lparr>p_stock := 0\<rparr>, prod_B, prod_C, prod_D],
          orders :=
            [\<lparr>o_id = 1, o_user_id = 2, o_total = 7, o_date = 0\<rparr>,
             \<lparr>o_id = 2, o_user_id = 1, o_total = 55, o_date = 7\<rparr>],
          order_items :=
            [\<lparr>oi_id = 1, oi_order_id = 1, oi_product_id = 3, oi_quantity = 1, oi_price = 7\<rparr>,
             \<lparr>oi_id = 2, oi_order_id = 2, oi_product_id = 1, oi_quantity = 10, oi_price = 5\<rparr>,
             \<lparr>oi_id = 3, oi_order_id = 2, oi_product_id = 1, oi_quantity = 1, oi_price = 5\<rparr>],
          cart_items := []\<rparr>"

definition toy_hash :: "string \<Rightarrow> string" where
  "toy_hash pw = CHR ''#'' # pw"

definition toy_check :: "string \<Rightarrow> string \<Rightarrow> bool" where
  "toy_check h pw = (h = toy_hash pw)"

section \<open>Primary keys and lookups\<close>

lemma fold_max_ge: "(x::int) \<le> fold max xs x"
proof (induction xs arbitrary: x)
  case Nil then show ?case by simp
next
  case (Cons y ys)
  have "x \<le> max y x" by simp
  also have "\<dots> \<le> fold max ys (max y x)" by (rule Cons.IH)
  finally show ?case by simp
qed

lemma fold_max_upper: "y \<in> set xs \<Longrightarrow> (y::int) \<le> fold max xs x"
proof (induction xs arbitrary: x)
  case Nil then show ?case by simp
next
  case (Cons z zs)
  show ?case
  proof (cases "y = z")
    case True
    have "y \<le> max z x" using True by simp
    also have "\<dots> \<le> fold max zs (max z x)" by (rule fold_max_ge)
    finally show ?thesis by simp
  next
    case False
    with Cons.prems have "y \<in> set zs" by simp
    then show ?thesis using Cons.IH by simp
  qed
qed

text \<open>The key of an inserted row is not in use.\<close>

lemma next_id_fresh: "next_id xs \<notin> set xs"
proof (cases xs)
  case Nil then show ?thesis by simp
next
  case (Cons x ys)
  have "\<forall>y \<in> set xs. y < next_id xs"
    unfolding Cons using fold_max_ge [of x ys] fold_max_upper [of _ ys x]
    by (auto simp: less_Suc_eq_le intro: order.strict_trans1)
  then show ?thesis by blast
qed

lemma get_product_set_stock:
  "get_product (set_stock pid s ps) pid' =
     (if pid' = pid then map_option (\<lambda>p. p\<lparr>p_stock := s\<rparr>) (get_product ps pid)
      else get_product ps pid')"
  by (induction ps) (auto simp: get_product_def set_stock_def)

lemma get_product_id: "get_product ps pid = Some p \<Longrightarrow> p_id p = pid"
  by (auto simp: get_product_def find_Some_iff)

lemma set_stock_rel:
  "list_all2 (\<lambda>p p'. same_but_stock p p' \<and> (p_id p \<noteq> pid \<longrightarrow> p' = p)) ps (set_stock pid s ps)"
  by (induction ps) (auto simp: set_stock_def same_but_stock_def)

lemma same_but_stock_refl: "same_but_stock p p"
  by (simp add: same_but_stock_def)

lemma same_but_stock_trans:
  "same_but_stock p q \<Longrightarrow> same_but_stock q r \<Longrightarrow> same_but_stock p r"
  unfolding same_but_stock_def by (cases p, cases q, cases r) simp

lemma same_but_stock_id: "same_but_stock p q \<Longrightarrow> p_id q = p_id p"
  unfolding same_but_stock_def by (cases p, cases q) simp

lemma first_cart_item_in: "first_cart_item cs uid pid = Some c \<Longrightarrow> c \<in> set cs"
  by (auto simp: first_cart_item_def find_Some_iff)

lemma first_cart_item_None:
  "first_cart_item cs uid pid = None \<Longrightarrow> (uid, pid) \<notin> set (map line_key cs)"
  by (auto simp: first_cart_item_def find_None_iff line_key_def)

lemma first_user_None: "(first_user us e = None) = (e \<notin> set (map u_email us))"
  by (auto simp: first_user_def find_None_iff)

lemma first_user_append_new:
  "first_user us e = None \<Longrightarrow> u_email u = e \<Longrightarrow> first_user (us @ [u]) e = Some u"
  by (induction us) (auto simp: first_user_def)

section \<open>The stock check\<close>

lemma check_stock_msg:
  "check_stock ps cs = Inr (Some m) \<Longrightarrow>
     \<exists>c \<in> set cs. \<exists>p. get_product ps (ci_product_id c) = Some p \<and> p_stock p < ci_quantity c
        \<and> m = Not_enough_stock (p_name p) (p_stock p)"
  by (induction cs) (auto split: option.splits if_splits)

lemma check_stock_passed:
  "check_stock ps cs = Inr None \<Longrightarrow>
     \<forall>c \<in> set cs. \<exists>p. get_product ps (ci_product_id c) = Some p \<and> ci_quantity c \<le> p_stock p"
  by (induction cs) (auto split: option.splits if_splits)

lemma check_stock_no_error:
  "\<forall>c \<in> set cs. get_product ps (ci_product_id c) \<noteq> None \<Longrightarrow> check_stock ps cs \<noteq> Inl e"
  by (induction cs) (auto split: option.splits if_splits)

lemma check_stock_error: "check_stock ps cs = Inl e \<Longrightarrow> e = AttributeError"
  by (induction cs) (auto split: option.splits if_splits)

text \<open>What a placed order says about the run of \<open>checkout\<close>.\<close>

lemma checkout_placed:
  assumes "checkout A now uid d = (Inr Order_placed, d')"
  shows "cart_of uid (cart_items d) \<noteq> [] \<and>
         check_stock (products d) (cart_of uid (cart_items d)) = Inr None \<and>
         (\<exists>tot. cart_total A (products d) (fzero A) (cart_of uid (cart_items d)) = Inr tot \<and>
            place_items (next_id (map o_id (orders d))) (cart_of uid (cart_items d))
              (d\<lparr>orders := orders d @
                  [\<lparr>o_id = next_id (map o_id (orders d)), o_user_id = uid,
                    o_total = tot, o_date = now\<rparr>]\<rparr>) = Inr d')"
  using assms check_stock_msg [of "products d" "cart_of uid (cart_items d)"]
  by (auto simp: checkout_def Let_def split: if_splits sum.splits option.splits)

lemma checkout_cases:
  "snd (checkout A now uid d) = d \<or> (\<exists>d'. checkout A now uid d = (Inr Order_placed, d'))"
  by (simp add: checkout_def Let_def split: sum.splits option.splits)

section \<open>The second loop of checkout\<close>

lemma place_item_fields:
  "users (place_item oid c p d) = users d"
  "categories (place_item oid c p d) = categories d"
  "orders (place_item oid c p d) = orders d"
  "cart_items (place_item oid c p d) = delete_cart_item (ci_id c) (cart_items d)"
  "products (place_item oid c p d) =
     set_stock (p_id p) (max 0 (p_stock p - ci_quantity c)) (products d)"
  "order_items (place_item oid c p d) = order_items d @
     [\<lparr>oi_id = next_id (map oi_id (order_items d)), oi_order_id = oid,
       oi_product_id = ci_product_id c, oi_quantity = ci_quantity c,
       oi_price = p_price p\<rparr>]"
  by (simp_all add: place_item_def)

lemma place_items_Cons:
  assumes "place_items oid (c # cs) d = Inr d'"
  obtains p where "get_product (products d) (ci_product_id c) = Some p"
    and "place_items oid cs (place_item oid c p d) = Inr d'"
  using assms by (auto split: option.splits)

lemma place_items_frame:
  "place_items oid cs d = Inr d' \<Longrightarrow>
     users d' = users d \<and> categories d' = categories d \<and> orders d' = orders d"
proof (induction cs arbitrary: d)
  case Nil then show ?case by simp
next
  case (Cons c cs)
  from Cons.prems obtain p where "place_items oid cs (place_item oid c p d) = Inr d'"
    by (rule place_items_Cons)
  from Cons.IH [OF this] show ?case by (simp add: place_item_fields)
qed

text \<open>The lines of the cart are gone, by their keys, and nothing else.\<close>

lemma place_items_cart:
  "place_items oid cs d = Inr d' \<Longrightarrow>
     cart_items d' = filter (\<lambda>x. ci_id x \<notin> ci_id ` set cs) (cart_items d)"
proof (induction cs arbitrary: d)
  case Nil then show ?case by simp
next
  case (Cons c cs)
  from Cons.prems obtain p where "place_items oid cs (place_item oid c p d) = Inr d'"
    by (rule place_items_Cons)
  from Cons.IH [OF this] show ?case
    by (auto simp: place_item_fields delete_cart_item_def intro: filter_cong)
qed

text \<open>Every product row keeps all columns but the stock; rows outside the cart keep that too.\<close>

lemma place_items_products:
  "place_items oid cs d = Inr d' \<Longrightarrow>
     list_all2 (\<lambda>p p'. same_but_stock p p' \<and> (p_id p \<notin> ci_product_id ` set cs \<longrightarrow> p' = p))
       (products d) (products d')"
proof (induction cs arbitrary: d)
  case Nil then show ?case by (simp add: list_all2_refl same_but_stock_refl)
next
  case (Cons c cs)
  from Cons.prems obtain p where p: "get_product (products d) (ci_product_id c) = Some p"
    and rest: "place_items oid cs (place_item oid c p d) = Inr d'"
    by (rule place_items_Cons)
  let ?ps1 = "set_stock (p_id p) (max 0 (p_stock p - ci_quantity c)) (products d)"
  have pid: "p_id p = ci_product_id c" using p by (rule get_product_id)
  have a: "list_all2 (\<lambda>p p'. same_but_stock p p' \<and> (p_id p \<noteq> ci_product_id c \<longrightarrow> p' = p))
       (products d) ?ps1"
    unfolding pid by (rule set_stock_rel)
  have b: "list_all2 (\<lambda>p p'. same_but_stock p p' \<and> (p_id p \<notin> ci_product_id ` set cs \<longrightarrow> p' = p))
       ?ps1 (products d')"
    using Cons.IH [OF rest] by (simp add: place_item_fields)
  show ?case
    using list_all2_trans [where ?P1.0 = "\<lambda>p p'. same_but_stock p p' \<and> (p_id p \<noteq> ci_product_id c \<longrightarrow> p' = p)"
        and ?P2.0 = "\<lambda>p p'. same_but_stock p p' \<and> (p_id p \<notin> ci_product_id ` set cs \<longrightarrow> p' = p)"
        and ?P3.0 = "\<lambda>p p'. same_but_stock p p' \<and> (p_id p \<notin> ci_product_id ` set (c # cs) \<longrightarrow> p' = p)",
        OF _ a b]
    by (auto intro: same_but_stock_trans dest: same_but_stock_id)
qed

text \<open>The stock of a product after the loop: one floored decrement per line that names it.\<close>

lemma place_items_stock:
  "place_items oid cs d = Inr d' \<Longrightarrow> get_product (products d) pid = Some p \<Longrightarrow>
     get_product (products d') pid =
       Some (p\<lparr>p_stock := dec_all (p_stock p) (quantities_for pid cs)\<rparr>)"
proof (induction cs arbitrary: d p)
  case Nil then show ?case by (simp add: quantities_for_def)
next
  case (Cons c cs)
  from Cons.prems(1) obtain q where q: "get_product (products d) (ci_product_id c) = Some q"
    and rest: "place_items oid cs (place_item oid c q d) = Inr d'"
    by (rule place_items_Cons)
  have qid: "p_id q = ci_product_id c" using q by (rule get_product_id)
  show ?case
  proof (cases "ci_product_id c = pid")
    case True
    with q Cons.prems(2) have [simp]: "q = p" by simp
    have "get_product (products (place_item oid c q d)) pid
            = Some (p\<lparr>p_stock := max 0 (p_stock p - ci_quantity c)\<rparr>)"
      using Cons.prems(2) True qid by (simp add: get_product_set_stock place_item_fields)
    from Cons.IH [OF rest this] show ?thesis
      using True by (simp add: quantities_for_def)
  next
    case False
    have "get_product (products (place_item oid c q d)) pid = Some p"
      using Cons.prems(2) False qid by (simp add: get_product_set_stock place_item_fields)
    from Cons.IH [OF rest this] show ?thesis
      using False by (simp add: quantities_for_def)
  qed
qed

text \<open>The stock decrement of a line does not change the price that a later line reads.\<close>

lemma get_product_place_item_price:
  assumes "get_product (products d) (ci_product_id c) = Some p"
  shows "(case get_product (products (place_item oid c p d)) pid of None \<Rightarrow> False
          | Some q \<Rightarrow> x = p_price q)
       = (case get_product (products d) pid of None \<Rightarrow> False | Some q \<Rightarrow> x = p_price q)"
  by (cases "get_product (products d) pid")
     (auto simp: place_item_fields get_product_set_stock)

text \<open>The loop appends one snapshot per line, in cart order, with the prices of its start.\<close>

lemma place_items_order_items:
  "place_items oid cs d = Inr d' \<Longrightarrow>
     \<exists>new. order_items d' = order_items d @ new \<and>
           list_all2 (snapshot_of (products d) oid) cs new"
proof (induction cs arbitrary: d)
  case Nil then show ?case by simp
next
  case (Cons c cs)
  from Cons.prems obtain p where p: "get_product (products d) (ci_product_id c) = Some p"
    and rest: "place_items oid cs (place_item oid c p d) = Inr d'"
    by (rule place_items_Cons)
  from Cons.IH [OF rest] obtain new where
    new: "order_items d' = order_items (place_item oid c p d) @ new"
    and snap: "list_all2 (snapshot_of (products (place_item oid c p d)) oid) cs new"
    by blast
  let ?oi = "\<lparr>oi_id = next_id (map oi_id (order_items d)), oi_order_id = oid,
            oi_product_id = ci_product_id c, oi_quantity = ci_quantity c,
            oi_price = p_price p\<rparr>"
  have "snapshot_of (products (place_item oid c p d)) oid = snapshot_of (products d) oid"
    by (intro ext) (simp add: snapshot_of_def get_product_place_item_price [OF p])
  with snap have snap': "list_all2 (snapshot_of (products d) oid) cs new" by simp
  have "snapshot_of (products d) oid c ?oi" using p by (simp add: snapshot_of_def)
  with snap' have "list_all2 (snapshot_of (products d) oid) (c # cs) (?oi # new)" by simp
  moreover have "order_items d' = order_items d @ (?oi # new)"
    using new by (simp add: place_item_fields)
  ultimately show ?case by blast
qed

lemma list_all2_snapshot_order_id:
  "list_all2 (snapshot_of ps oid) cs new \<Longrightarrow> \<forall>oi \<in> set new. oi_order_id oi = oid"
  by (induction rule: list_all2_induct) (auto simp: snapshot_of_def)

text \<open>The total that \<open>sum\<close> computes from the cart is the sum over the snapshots.\<close>

lemma cart_total_snapshots:
  "cart_total A ps acc cs = Inr t \<Longrightarrow> list_all2 (snapshot_of ps oid) cs new \<Longrightarrow>
     t = foldl (fadd A) acc (map (\<lambda>oi. fmul A (oi_price oi) (oi_quantity oi)) new)"
proof (induction cs arbitrary: acc new)
  case Nil then show ?case by simp
next
  case (Cons c cs)
  from Cons.prems(2) obtain oi new' where new: "new = oi # new'"
    and oi: "snapshot_of ps oid c oi" and rest: "list_all2 (snapshot_of ps oid) cs new'"
    by (auto simp: list_all2_Cons1)
  from oi obtain p where p: "get_product ps (ci_product_id c) = Some p"
    and price: "oi_price oi = p_price p" and qty: "oi_quantity oi = ci_quantity c"
    by (auto simp: snapshot_of_def split: option.splits)
  from Cons.prems(1) p
  have "cart_total A ps (fadd A acc (fmul A (p_price p) (ci_quantity c))) cs = Inr t" by simp
  from Cons.IH [OF this rest] show ?case by (simp add: new price qty)
qed

text \<open>Neither loop fails when every line of the cart has its product row.\<close>

lemma place_items_succeeds:
  "\<forall>c \<in> set cs. get_product (products d) (ci_product_id c) \<noteq> None \<Longrightarrow>
     \<exists>d'. place_items oid cs d = Inr d'"
proof (induction cs arbitrary: d)
  case Nil then show ?case by simp
next
  case (Cons c cs)
  from Cons.prems obtain p where p: "get_product (products d) (ci_product_id c) = Some p"
    by auto
  have "\<forall>x \<in> set cs. get_product (products (place_item oid c p d)) (ci_product_id x) \<noteq> None"
    using Cons.prems by (auto simp: place_item_fields get_product_set_stock)
  from Cons.IH [OF this] show ?case using p by simp
qed

lemma cart_total_succeeds:
  "\<forall>c \<in> set cs. get_product ps (ci_product_id c) \<noteq> None \<Longrightarrow>
     \<exists>t. cart_total A ps acc cs = Inr t"
  by (induction cs arbitrary: acc) auto

text \<open>
  A non-empty cart whose lines all have their product row and enough stock is checked out:
  the request ends in the placed order.
\<close>

lemma checkout_succeeds:
  assumes "cart_of uid (cart_items d) \<noteq> []"
    and "\<forall>c \<in> set (cart_of uid (cart_items d)).
           \<exists>p. get_product (products d) (ci_product_id c) = Some p \<and> ci_quantity c \<le> p_stock p"
  shows "\<exists>d'. checkout A now uid d = (Inr Order_placed, d')"
proof -
  let ?cart = "cart_of uid (cart_items d)"
  have ex: "\<forall>c \<in> set ?cart. get_product (products d) (ci_product_id c) \<noteq> None"
    using assms(2) by auto
  have chk: "check_stock (products d) ?cart = Inr None"
  proof (cases "check_stock (products d) ?cart")
    case (Inl e)
    with check_stock_no_error [OF ex] show ?thesis by blast
  next
    case (Inr r)
    show ?thesis
    proof (cases r)
      case None with Inr show ?thesis by simp
    next
      case (Some m)
      with Inr check_stock_msg [of "products d" ?cart m] assms(2) show ?thesis by fastforce
    qed
  qed
  from cart_total_succeeds [OF ex] obtain t where
    t: "cart_total A (products d) (fzero A) ?cart = Inr t" by blast
  let ?d0 = "d\<lparr>orders := orders d @
               [\<lparr>o_id = next_id (map o_id (orders d)), o_user_id = uid,
                 o_total = t, o_date = now\<rparr>]\<rparr>"
  have "\<forall>c \<in> set ?cart. get_product (products ?d0) (ci_product_id c) \<noteq> None"
    using ex by simp
  from place_items_succeeds [OF this] obtain d' where
    "place_items (next_id (map o_id (orders d))) ?cart ?d0 = Inr d'" by blast
  with assms(1) chk t show ?thesis by (simp add: checkout_def Let_def)
qed

section \<open>Floored decrements\<close>

lemma dec_all_nonneg:
  "qs \<noteq> [] \<Longrightarrow> \<forall>q \<in> set qs. 0 \<le> q \<Longrightarrow> dec_all s qs = max 0 (s - sum_list qs)"
proof (induction qs arbitrary: s)
  case Nil then show ?case by simp
next
  case (Cons q qs)
  show ?case
  proof (cases qs)
    case Nil then show ?thesis by simp
  next
    case (Cons r rs)
    then have ne: "qs \<noteq> []" by simp
    have nn: "\<forall>q \<in> set qs. 0 \<le> q" using Cons.prems by simp
    have "0 \<le> sum_list qs" using nn by (simp add: sum_list_nonneg)
    moreover have "dec_all (max 0 (s - q)) qs = max 0 (max 0 (s - q) - sum_list qs)"
      using Cons.IH [OF ne nn] .
    ultimately show ?thesis by simp
  qed
qed

lemma quantities_for_distinct:
  "distinct (map ci_product_id cs) \<Longrightarrow> c \<in> set cs \<Longrightarrow>
     quantities_for (ci_product_id c) cs = [ci_quantity c]"
proof (induction cs)
  case Nil then show ?case by simp
next
  case (Cons x xs)
  show ?case
  proof (cases "c = x")
    case True
    have "ci_product_id x \<notin> ci_product_id ` set xs" using Cons.prems(1) by simp
    then have "\<forall>y \<in> set xs. ci_product_id y \<noteq> ci_product_id x" by (metis imageI)
    then have "filter (\<lambda>y. ci_product_id y = ci_product_id x) xs = []"
      by (simp add: filter_empty_conv)
    then show ?thesis using True by (simp add: quantities_for_def)
  next
    case False
    with Cons.prems have "c \<in> set xs" and "ci_product_id x \<noteq> ci_product_id c" by auto
    with Cons show ?thesis by (simp add: quantities_for_def)
  qed
qed

lemma quantities_for_nonempty:
  "c \<in> set cs \<Longrightarrow> quantities_for (ci_product_id c) cs \<noteq> []"
  by (auto simp: quantities_for_def filter_empty_conv)

lemma quantities_for_set:
  "set (quantities_for pid cs) \<subseteq> ci_quantity ` set cs"
  by (auto simp: quantities_for_def)

section \<open>The cart table\<close>

lemma cart_of_after_delete:
  "cart_of uid (filter (\<lambda>x. ci_id x \<notin> ci_id ` set (cart_of uid cs)) cs) = []"
  by (auto simp: cart_of_def filter_empty_conv)

lemma others_after_delete:
  assumes "distinct (map ci_id cs)"
  shows "filter (\<lambda>x. ci_user_id x \<noteq> uid)
           (filter (\<lambda>x. ci_id x \<notin> ci_id ` set (cart_of uid cs)) cs)
         = filter (\<lambda>x. ci_user_id x \<noteq> uid) cs"
proof -
  have inj: "inj_on ci_id (set cs)" using assms by (simp add: distinct_map)
  have "\<And>x. x \<in> set cs \<Longrightarrow> ci_user_id x \<noteq> uid \<Longrightarrow> ci_id x \<notin> ci_id ` set (cart_of uid cs)"
  proof
    fix x assume x: "x \<in> set cs" "ci_user_id x \<noteq> uid"
      and "ci_id x \<in> ci_id ` set (cart_of uid cs)"
    then obtain y where y: "y \<in> set cs" "ci_user_id y = uid" "ci_id x = ci_id y"
      by (auto simp: cart_of_def)
    with inj x have "x = y" by (auto dest: inj_onD)
    with x y show False by simp
  qed
  then show ?thesis by (auto intro: filter_cong)
qed

lemma sanitize_range: "1 \<le> sanitize q \<and> sanitize q \<le> 100"
  by (simp add: sanitize_def)

lemma set_quantity_ok:
  "list_all quantity_ok cs \<Longrightarrow> 1 \<le> q \<Longrightarrow> q \<le> 100 \<Longrightarrow>
     list_all quantity_ok (set_quantity cid q cs)"
  by (induction cs) (auto simp: set_quantity_def quantity_ok_def)

lemma delete_cart_item_ok:
  "list_all quantity_ok cs \<Longrightarrow> list_all quantity_ok (delete_cart_item cid cs)"
  by (induction cs) (auto simp: delete_cart_item_def)

lemma update_quantity_ok:
  "quantities_ok d \<Longrightarrow> quantities_ok (update_quantity py_int uid kv d)"
  using sanitize_range
  by (auto simp: update_quantity_def quantities_ok_def Let_def set_quantity_ok
           split: option.splits)

lemma update_quantities_ok:
  "quantities_ok d \<Longrightarrow> quantities_ok (update_quantities py_int uid kvs d)"
  by (induction kvs arbitrary: d) (auto simp: update_quantity_ok)

lemma cart_post_ok: "quantities_ok d \<Longrightarrow> quantities_ok (cart_post py_int uid form d)"
proof -
  assume ok: "quantities_ok d"
  show ?thesis
  proof (cases "map_of form ''update''")
    case (Some v)
    then show ?thesis using ok by (simp add: cart_post_def update_quantities_ok)
  next
    case None
    then show ?thesis using ok
      by (auto simp: cart_post_def quantities_ok_def delete_cart_item_ok split: option.splits)
  qed
qed

lemma add_to_cart_ok: "quantities_ok d \<Longrightarrow> quantities_ok (snd (add_to_cart uid pid d))"
proof -
  assume ok: "quantities_ok d"
  show ?thesis
  proof (cases "get_product (products d) pid")
    case None then show ?thesis using ok by (simp add: add_to_cart_def)
  next
    case (Some p)
    show ?thesis
    proof (cases "first_cart_item (cart_items d) uid pid")
      case None
      then show ?thesis using ok Some
        by (simp add: add_to_cart_def quantities_ok_def quantity_ok_def)
    next
      case (Some c)
      then have "c \<in> set (cart_items d)" by (rule first_cart_item_in)
      with ok have "quantity_ok c" by (simp add: quantities_ok_def list_all_iff)
      then have "1 \<le> min (ci_quantity c + 1) 100" "min (ci_quantity c + 1) 100 \<le> 100"
        by (simp_all add: quantity_ok_def)
      then show ?thesis using ok Some \<open>get_product (products d) pid = Some p\<close>
        by (simp add: add_to_cart_def quantities_ok_def set_quantity_ok)
    qed
  qed
qed

lemma update_quantity_non_numeric:
  "py_int (snd kv) = None \<Longrightarrow> update_quantity py_int uid kv d = d"
  by (simp add: update_quantity_def Let_def split: option.splits)

subsection \<open>One line per user and product\<close>

text \<open>
  No route adds a second line for a product that a user's cart already holds, so a cart
  table that starts with one line per user and product keeps that shape.
\<close>

lemma line_key_set_quantity: "map line_key (set_quantity cid q cs) = map line_key cs"
  by (induction cs) (auto simp: set_quantity_def line_key_def)

lemma distinct_delete_cart_item:
  "distinct (map line_key cs) \<Longrightarrow> distinct (map line_key (delete_cart_item cid cs))"
  by (simp add: delete_cart_item_def distinct_map_filter)

lemma one_line_update_quantity:
  "one_line_per_product d \<Longrightarrow> one_line_per_product (update_quantity py_int uid kv d)"
  by (auto simp: update_quantity_def one_line_per_product_def Let_def line_key_set_quantity
           split: option.splits)

lemma one_line_update_quantities:
  "one_line_per_product d \<Longrightarrow> one_line_per_product (update_quantities py_int uid kvs d)"
  by (induction kvs arbitrary: d) (auto simp: one_line_update_quantity)

lemma one_line_cart_post:
  "one_line_per_product d \<Longrightarrow> one_line_per_product (cart_post py_int uid form d)"
proof -
  assume ok: "one_line_per_product d"
  show ?thesis
  proof (cases "map_of form ''update''")
    case (Some v)
    then show ?thesis using ok by (simp add: cart_post_def one_line_update_quantities)
  next
    case None
    then show ?thesis using ok
      by (auto simp: cart_post_def one_line_per_product_def distinct_delete_cart_item
               split: option.splits)
  qed
qed

lemma one_line_add_to_cart:
  "one_line_per_product d \<Longrightarrow> one_line_per_product (snd (add_to_cart uid pid d))"
proof -
  assume ok: "one_line_per_product d"
  show ?thesis
  proof (cases "get_product (products d) pid")
    case None then show ?thesis using ok by (simp add: add_to_cart_def)
  next
    case (Some p)
    show ?thesis
    proof (cases "first_cart_item (cart_items d) uid pid")
      case None
      from first_cart_item_None [OF this] show ?thesis using ok Some None
        by (simp add: add_to_cart_def one_line_per_product_def line_key_def)
    next
      case (Some c)
      then show ?thesis using ok \<open>get_product (products d) pid = Some p\<close>
        by (simp add: add_to_cart_def one_line_per_product_def line_key_set_quantity)
    qed
  qed
qed

lemma one_line_checkout:
  "one_line_per_product d \<Longrightarrow> one_line_per_product (snd (checkout A now uid d))"
proof -
  assume ok: "one_line_per_product d"
  from checkout_cases [of A now uid d] show ?thesis
  proof
    assume "snd (checkout A now uid d) = d" with ok show ?thesis by simp
  next
    assume "\<exists>d'. checkout A now uid d = (Inr Order_placed, d')"
    then obtain d' where d': "checkout A now uid d = (Inr Order_placed, d')" by blast
    from checkout_placed [OF d'] obtain tot where
      pl: "place_items (next_id (map o_id (orders d))) (cart_of uid (cart_items d))
              (d\<lparr>orders := orders d @
                  [\<lparr>o_id = next_id (map o_id (orders d)), o_user_id = uid,
                    o_total = tot, o_date = now\<rparr>]\<rparr>) = Inr d'"
      by blast
    from place_items_cart [OF pl] ok show ?thesis
      by (simp add: d' one_line_per_product_def distinct_map_filter)
  qed
qed

lemma distinct_map_Pair: "distinct (map (Pair u) xs) = distinct xs"
  by (induction xs) auto

text \<open>With one line per user and product, the products of a user's cart are distinct.\<close>

lemma one_line_cart_of:
  assumes "one_line_per_product d"
  shows "distinct (map ci_product_id (cart_of uid (cart_items d)))"
proof -
  let ?ys = "cart_of uid (cart_items d)"
  have dk: "distinct (map line_key ?ys)"
    using assms by (simp add: one_line_per_product_def cart_of_def distinct_map_filter)
  have "map line_key ?ys = map (Pair uid) (map ci_product_id ?ys)"
    by (simp add: cart_of_def line_key_def)
  with dk have "distinct (map (Pair uid) (map ci_product_id ?ys))" by simp
  then show ?thesis by (simp only: distinct_map_Pair)
qed

subsection \<open>The invariants hold in every state the routes reach\<close>

lemma register_cart_items: "cart_items (snd (register gen form d)) = cart_items d"
  by (simp add: register_def split: option.splits)

lemma checkout_ok: "quantities_ok d \<Longrightarrow> quantities_ok (snd (checkout A now uid d))"
proof -
  assume ok: "quantities_ok d"
  from checkout_cases [of A now uid d] show ?thesis
  proof
    assume "snd (checkout A now uid d) = d" with ok show ?thesis by simp
  next
    assume "\<exists>d'. checkout A now uid d = (Inr Order_placed, d')"
    then obtain d' where d': "checkout A now uid d = (Inr Order_placed, d')" by blast
    from checkout_placed [OF d'] obtain tot where
      pl: "place_items (next_id (map o_id (orders d))) (cart_of uid (cart_items d))
              (d\<lparr>orders := orders d @
                  [\<lparr>o_id = next_id (map o_id (orders d)), o_user_id = uid,
                    o_total = tot, o_date = now\<rparr>]\<rparr>) = Inr d'"
      by blast
    from place_items_cart [OF pl] ok show ?thesis
      by (simp add: d' quantities_ok_def list_all_iff)
  qed
qed

lemma reachable_invariants:
  "reachable d0 d \<Longrightarrow> one_line_per_product d0 \<Longrightarrow> quantities_ok d0 \<Longrightarrow>
     one_line_per_product d \<and> quantities_ok d"
proof (induction rule: reachable.induct)
  case start
  then show ?case by simp
next
  case (by_add_to_cart d uid product_id)
  then show ?case by (simp add: one_line_add_to_cart add_to_cart_ok)
next
  case (by_cart_post d py_int uid form)
  then show ?case by (simp add: one_line_cart_post cart_post_ok)
next
  case (by_checkout d A now uid)
  then show ?case by (simp add: one_line_checkout checkout_ok)
next
  case (by_register d gen form)
  then show ?case
    by (simp add: one_line_per_product_def quantities_ok_def register_cart_items)
qed

lemma reachable_from_empty_carts:
  assumes "reachable d0 d" and "cart_items d0 = []"
  shows "distinct (map ci_product_id (cart_of uid (cart_items d))) \<and>
         (\<forall>c \<in> set (cart_items d). 1 \<le> ci_quantity c \<and> ci_quantity c \<le> 100)"
proof -
  have "one_line_per_product d0" "quantities_ok d0"
    using assms(2) by (simp_all add: one_line_per_product_def quantities_ok_def)
  with reachable_invariants [OF assms(1)] have "one_line_per_product d" "quantities_ok d"
    by simp_all
  then show ?thesis
    using one_line_cart_of [of d uid] by (simp add: quantities_ok_def quantity_ok_def list_all_iff)
qed

section \<open>The catalog listing\<close>

lemma set_join_category:
  "set (join_category ps cats) =
     {p \<in> set ps. \<exists>c \<in> set cats. p_category_id p = Some (cat_id c)}"
  by (auto simp: join_category_def)

lemma set_paginate: "set (paginate page n xs) \<subseteq> set xs"
  by (auto simp: paginate_def Let_def dest: in_set_takeD in_set_dropD)

lemma in_paginate: "p \<in> set (paginate page n xs) \<Longrightarrow> p \<in> set xs"
  using set_paginate by fastforce

lemma length_paginate: "length (paginate page n xs) \<le> n"
  by (simp add: paginate_def Let_def)

lemma sorted_wrt_paginate: "sorted_wrt P xs \<Longrightarrow> sorted_wrt P (paginate page n xs)"
  by (simp add: paginate_def Let_def sorted_wrt_take sorted_wrt_drop)

lemma sorted_desc_rev_sort_key:
  "sorted_wrt (\<lambda>a b. f b \<le> f a) (rev (sort_key f xs))"
proof -
  have "sorted (map f (sort_key f xs))" by (rule sorted_sort_key)
  then have "sorted_wrt (\<lambda>a b. f a \<le> f b) (sort_key f xs)"
    by (simp add: sorted_map)
  then show ?thesis by (simp add: sorted_wrt_rev)
qed

text \<open>The page is cut from the sorted query, which holds rows of the join only.\<close>

lemma home_items:
  "\<exists>page q. fst (home py_int contains args d) =
      paginate page 6
        (if map_of args ''sort'' = Some ''price_low'' then sort_key p_price q
         else if map_of args ''sort'' = Some ''price_high'' then rev (sort_key p_price q)
         else sort_key p_name q)
    \<and> set q \<subseteq> set (join_category (products d) (categories d))"
proof -
  define q where "q = join_category (products d) (categories d)"
  define q1 where "q1 = (case map_of args ''search'' of None \<Rightarrow> q
                    | Some s \<Rightarrow> if s = [] then q
                               else filter (\<lambda>p. contains (p_name p) s) q)"
  define q2 where "q2 = (case map_of args ''category'' of None \<Rightarrow> q1
                    | Some s \<Rightarrow> if s = [] then q1
                               else (case py_int s of None \<Rightarrow> q1
                                     | Some cid \<Rightarrow> filter (\<lambda>p. p_category_id p = Some cid) q1))"
  have s1: "set q1 \<subseteq> set q" unfolding q1_def by (cases "map_of args ''search''") auto
  have s2: "set q2 \<subseteq> set q1" unfolding q2_def
    by (cases "map_of args ''category''") (auto split: option.splits)
  have "fst (home py_int contains args d) =
      paginate (case map_of args ''page'' of None \<Rightarrow> 1
                  | Some s \<Rightarrow> (case py_int s of None \<Rightarrow> 1 | Some n \<Rightarrow> n)) 6
        (if map_of args ''sort'' = Some ''price_low'' then sort_key p_price q2
         else if map_of args ''sort'' = Some ''price_high'' then rev (sort_key p_price q2)
         else sort_key p_name q2)"
    unfolding home_def Let_def q2_def q1_def q_def
    by (cases "map_of args ''sort''") simp_all
  moreover have "set q2 \<subseteq> set (join_category (products d) (categories d))"
    using s1 s2 unfolding q_def by blast
  ultimately show ?thesis by blast
qed

section \<open>The example shop\<close>

lemmas demo_defs =
  demo_def demo_placed_def demo_user_def prod_A_def prod_B_def prod_C_def prod_D_def
  line_1_def line_2_def line_3_def real_ops_def

lemmas dup_defs = dup_demo_def dup_placed_def dup_line_1_def dup_line_2_def

lemma demo_checkout: "checkout real_ops 7 1 demo = (Inr Order_placed, demo_placed)"
  by (simp add: checkout_def cart_of_def demo_defs get_product_def place_item_def
        set_stock_def delete_cart_item_def Let_def)

lemma demo_rejected: "checkout real_ops 7 2 demo = (Inr (Not_enough_stock ''A'' 10), demo)"
  by (simp add: checkout_def cart_of_def demo_defs get_product_def Let_def)

lemma demo_home:
  "fst (home dec_int (\<lambda>name search. True) [(''sort'', ''price_high'')] demo) = [prod_B, prod_A]"
  by (simp add: home_def join_category_def paginate_def demo_defs Let_def)

section \<open>Further facts about checkout\<close>

lemma checkout_empty_cart:
  "cart_of uid (cart_items d) = [] \<Longrightarrow> checkout A now uid d = (Inr Cart_is_empty, d)"
  by (simp add: checkout_def)

text \<open>
  Two lines for one product can each pass the stock check, which compares every line with
  the stock of before, and together ask for more than the stock: then the second
  decrement is cut off at 0. A cart with one line per product excludes this.
\<close>

lemma two_lines_reach_floor:
  "dec_all 10 (quantities_for 1
      [\<lparr>ci_id = 1, ci_user_id = 1, ci_product_id = 1, ci_quantity = 6\<rparr>,
       \<lparr>ci_id = 2, ci_user_id = 1, ci_product_id = 1, ci_quantity = 6\<rparr>]) = 0"
  by (simp add: quantities_for_def)

section \<open>The properties of the specification\<close>


text \<open>
  \<^bold>\<open>C1.\<close> When a line of the user's cart asks for more than the stock of its product,
  checkout leaves the database exactly as it was: no Order, no OrderItem, no stock change,
  no deleted line. The request ends in the message that names a product of the cart whose
  stock is short, with that stock; only a cart line whose product row is missing can turn
  the request into an AttributeError instead, and then nothing is written either.
\<close>

theorem checkout_insufficient_stock_no_writes:
  assumes "c \<in> set (cart_of uid (cart_items d))"
    and "get_product (products d) (ci_product_id c) = Some p"
    and "p_stock p < ci_quantity c"
  shows "snd (checkout A now uid d) = d \<and>
         (fst (checkout A now uid d) = Inl AttributeError \<or>
          (\<exists>x \<in> set (cart_of uid (cart_items d)). \<exists>q.
              get_product (products d) (ci_product_id x) = Some q \<and> p_stock q < ci_quantity x \<and>
              fst (checkout A now uid d) = Inr (Not_enough_stock (p_name q) (p_stock q)))) \<and>
         ((\<forall>x \<in> set (cart_of uid (cart_items d)).
              get_product (products d) (ci_product_id x) \<noteq> None) \<longrightarrow>
            fst (checkout A now uid d) \<noteq> Inl AttributeError)"
proof -
  let ?cart = "cart_of uid (cart_items d)"
  have ne: "?cart \<noteq> []" using assms(1) by auto
  have not_passed: "check_stock (products d) ?cart \<noteq> Inr None"
    using check_stock_passed [of "products d" ?cart] assms by fastforce
  show ?thesis
  proof (cases "check_stock (products d) ?cart")
    case (Inl e)
    have e: "e = AttributeError" using Inl by (rule check_stock_error)
    have noerr: "(\<forall>x \<in> set ?cart. get_product (products d) (ci_product_id x) \<noteq> None)
          \<longrightarrow> False"
      using Inl e check_stock_no_error [of ?cart "products d" AttributeError] by blast
    have "checkout A now uid d = (Inl AttributeError, d)"
      using Inl e ne by (simp add: checkout_def Let_def)
    with noerr show ?thesis by simp
  next
    case (Inr r)
    with not_passed obtain m where m: "check_stock (products d) ?cart = Inr (Some m)"
      by (cases r) auto
    from check_stock_msg [OF m] m ne show ?thesis
      by (auto simp: checkout_def Let_def)
  qed
qed

theorem checkout_insufficient_stock_no_writes_witness:
  "line_3 \<in> set (cart_of 2 (cart_items demo)) \<and>
   get_product (products demo) (ci_product_id line_3) = Some prod_A \<and>
   p_stock prod_A < ci_quantity line_3 \<and>
   list_all (\<lambda>x. get_product (products demo) (ci_product_id x) \<noteq> None)
     (cart_of 2 (cart_items demo)) \<and>
   snd (checkout real_ops 7 2 demo) = demo \<and>
   fst (checkout real_ops 7 2 demo) = Inr (Not_enough_stock ''A'' 10)"
proof -
  have h1: "line_3 \<in> set (cart_of 2 (cart_items demo))"
    by (simp add: cart_of_def demo_defs)
  have h2: "get_product (products demo) (ci_product_id line_3) = Some prod_A"
    by (simp add: get_product_def demo_defs)
  have h3: "p_stock prod_A < ci_quantity line_3" by (simp add: demo_defs)
  have h4: "\<forall>x \<in> set (cart_of 2 (cart_items demo)).
       get_product (products demo) (ci_product_id x) \<noteq> None"
    by (simp add: cart_of_def get_product_def demo_defs)
  from checkout_insufficient_stock_no_writes [OF h1 h2 h3, of real_ops 7] h1 h2 h3 h4
  show ?thesis by (simp add: demo_rejected list_all_iff)
qed

text \<open>
  \<^bold>\<open>C2.\<close> After a checkout that placed the order, the user's cart is empty, and the
  total of the new Order is the sum, taken as the program takes it (in line order, from
  the start value of \<open>sum\<close>), of price times quantity over the OrderItems the checkout
  appended, one per line of the cart with the price its product had at checkout. Where
  every earlier OrderItem references an existing Order, these are exactly the OrderItems
  of the new Order.
\<close>

theorem checkout_empties_cart_total_is_item_sum:
  assumes "checkout A now uid d = (Inr Order_placed, d')"
  shows "cart_of uid (cart_items d') = [] \<and>
         (\<exists>ord new. orders d' = orders d @ [ord] \<and> o_user_id ord = uid \<and>
            order_items d' = order_items d @ new \<and>
            list_all2 (snapshot_of (products d) (o_id ord)) (cart_of uid (cart_items d)) new \<and>
            o_total ord = py_sum A (map (\<lambda>oi. fmul A (oi_price oi) (oi_quantity oi)) new) \<and>
            ((\<forall>oi \<in> set (order_items d). oi_order_id oi \<in> set (map o_id (orders d))) \<longrightarrow>
               items_of_order d' (o_id ord) = new))"
proof -
  let ?cart = "cart_of uid (cart_items d)"
  let ?oid = "next_id (map o_id (orders d))"
  from checkout_placed [OF assms(1)] obtain tot where
    tot: "cart_total A (products d) (fzero A) ?cart = Inr tot"
    and pl: "place_items ?oid ?cart
              (d\<lparr>orders := orders d @
                  [\<lparr>o_id = ?oid, o_user_id = uid, o_total = tot, o_date = now\<rparr>]\<rparr>) = Inr d'"
    by blast
  let ?ord = "\<lparr>o_id = ?oid, o_user_id = uid, o_total = tot, o_date = now\<rparr>"
  have "cart_items d' = filter (\<lambda>x. ci_id x \<notin> ci_id ` set ?cart) (cart_items d)"
    using place_items_cart [OF pl] by simp
  then have empty: "cart_of uid (cart_items d') = []" by (simp add: cart_of_after_delete)
  have ords: "orders d' = orders d @ [?ord]" using place_items_frame [OF pl] by simp
  from place_items_order_items [OF pl] obtain new where
    new: "order_items d' = order_items d @ new"
    and snap: "list_all2 (snapshot_of (products d) ?oid) ?cart new"
    by auto
  have sum: "tot = py_sum A (map (\<lambda>oi. fmul A (oi_price oi) (oi_quantity oi)) new)"
    unfolding py_sum_def using cart_total_snapshots [OF tot snap] .
  have mine: "filter (\<lambda>oi. oi_order_id oi = ?oid) new = new"
    using list_all2_snapshot_order_id [OF snap] by (simp add: filter_id_conv)
  have items: "items_of_order d' ?oid = new"
    if fk: "\<forall>oi \<in> set (order_items d). oi_order_id oi \<in> set (map o_id (orders d))"
  proof -
    have "\<forall>oi \<in> set (order_items d). oi_order_id oi \<noteq> ?oid"
      using fk next_id_fresh [of "map o_id (orders d)"] by metis
    then have "filter (\<lambda>oi. oi_order_id oi = ?oid) (order_items d) = []"
      by (simp add: filter_empty_conv)
    with mine new show ?thesis by (simp add: items_of_order_def)
  qed
  have "orders d' = orders d @ [?ord] \<and> o_user_id ?ord = uid \<and>
            order_items d' = order_items d @ new \<and>
            list_all2 (snapshot_of (products d) (o_id ?ord)) ?cart new \<and>
            o_total ?ord = py_sum A (map (\<lambda>oi. fmul A (oi_price oi) (oi_quantity oi)) new) \<and>
            ((\<forall>oi \<in> set (order_items d). oi_order_id oi \<in> set (map o_id (orders d))) \<longrightarrow>
               items_of_order d' (o_id ?ord) = new)"
    using ords new snap sum items by simp
  then have "\<exists>ord new. orders d' = orders d @ [ord] \<and> o_user_id ord = uid \<and>
            order_items d' = order_items d @ new \<and>
            list_all2 (snapshot_of (products d) (o_id ord)) (cart_of uid (cart_items d)) new \<and>
            o_total ord = py_sum A (map (\<lambda>oi. fmul A (oi_price oi) (oi_quantity oi)) new) \<and>
            ((\<forall>oi \<in> set (order_items d). oi_order_id oi \<in> set (map o_id (orders d))) \<longrightarrow>
               items_of_order d' (o_id ord) = new)"
    by blast
  with empty show ?thesis by simp
qed

theorem checkout_empties_cart_total_is_item_sum_witness:
  "checkout real_ops 7 1 demo = (Inr Order_placed, demo_placed) \<and>
   list_all (\<lambda>oi. oi_order_id oi \<in> set (map o_id (orders demo))) (order_items demo) \<and>
   cart_of 1 (cart_items demo_placed) = [] \<and>
   (\<exists>ord. orders demo_placed = orders demo @ [ord] \<and> o_total ord = 20 \<and>
      o_total ord =
        py_sum real_ops (map (\<lambda>oi. fmul real_ops (oi_price oi) (oi_quantity oi))
                           (items_of_order demo_placed (o_id ord))))"
proof -
  have fk: "\<forall>oi \<in> set (order_items demo). oi_order_id oi \<in> set (map o_id (orders demo))"
    by (simp add: demo_defs)
  from checkout_empties_cart_total_is_item_sum [OF demo_checkout] fk
  obtain ord new where e: "cart_of 1 (cart_items demo_placed) = []"
    and o: "orders demo_placed = orders demo @ [ord]"
    and t: "o_total ord =
        py_sum real_ops (map (\<lambda>oi. fmul real_ops (oi_price oi) (oi_quantity oi)) new)"
    and i: "items_of_order demo_placed (o_id ord) = new"
    by blast
  from o have "ord = \<lparr>o_id = 2, o_user_id = 1, o_total = 20, o_date = 7\<rparr>"
    by (simp add: demo_defs)
  then have "o_total ord = 20" by simp
  moreover have "list_all (\<lambda>oi. oi_order_id oi \<in> set (map o_id (orders demo))) (order_items demo)"
    using fk by (simp only: list_all_iff)
  ultimately show ?thesis using e o t i demo_checkout by blast
qed

text \<open>
  \<^bold>\<open>C3.\<close> After a checkout that placed the order, every product of the cart has its
  stock of before, minus the quantity purchased of it, floored at 0, and is otherwise the
  row it was. The purchased quantity is the sum over the lines of the cart that name the
  product: the quantity of its one line when the cart has one line per product. The
  statement holds for such carts, and for carts without a negative quantity.
\<close>

theorem checkout_stock_decrement:
  assumes "checkout A now uid d = (Inr Order_placed, d')"
    and "c \<in> set (cart_of uid (cart_items d))"
    and "distinct (map ci_product_id (cart_of uid (cart_items d))) \<or>
         (\<forall>x \<in> set (cart_of uid (cart_items d)). 0 \<le> ci_quantity x)"
  shows "\<exists>p. get_product (products d) (ci_product_id c) = Some p \<and>
             get_product (products d') (ci_product_id c) =
               Some (p\<lparr>p_stock := max 0 (p_stock p -
                        purchased_quantity (ci_product_id c) (cart_of uid (cart_items d)))\<rparr>) \<and>
             (distinct (map ci_product_id (cart_of uid (cart_items d))) \<longrightarrow>
                purchased_quantity (ci_product_id c) (cart_of uid (cart_items d)) =
                  ci_quantity c)"
proof -
  let ?cart = "cart_of uid (cart_items d)"
  let ?pid = "ci_product_id c"
  from checkout_placed [OF assms(1)] obtain tot where
    chk: "check_stock (products d) ?cart = Inr None"
    and pl: "place_items (next_id (map o_id (orders d))) ?cart
              (d\<lparr>orders := orders d @
                  [\<lparr>o_id = next_id (map o_id (orders d)), o_user_id = uid,
                    o_total = tot, o_date = now\<rparr>]\<rparr>) = Inr d'"
    by blast
  from check_stock_passed [OF chk] assms(2) obtain p where
    p: "get_product (products d) ?pid = Some p" by blast
  have after: "get_product (products d') ?pid =
      Some (p\<lparr>p_stock := dec_all (p_stock p) (quantities_for ?pid ?cart)\<rparr>)"
    using place_items_stock [OF pl, of ?pid p] p by simp
  have one: "purchased_quantity ?pid ?cart = ci_quantity c"
    if "distinct (map ci_product_id ?cart)"
    using quantities_for_distinct [OF that assms(2)] by (simp add: purchased_quantity_def)
  have "dec_all (p_stock p) (quantities_for ?pid ?cart) =
        max 0 (p_stock p - purchased_quantity ?pid ?cart)"
    using assms(3)
  proof
    assume "distinct (map ci_product_id ?cart)"
    from quantities_for_distinct [OF this assms(2)] show ?thesis
      by (simp add: purchased_quantity_def)
  next
    assume "\<forall>x \<in> set ?cart. 0 \<le> ci_quantity x"
    then have "\<forall>q \<in> set (quantities_for ?pid ?cart). 0 \<le> q"
      using quantities_for_set [of ?pid ?cart] by auto
    from dec_all_nonneg [OF quantities_for_nonempty [OF assms(2)] this] show ?thesis
      by (simp add: purchased_quantity_def)
  qed
  with p after one show ?thesis by simp
qed

theorem checkout_stock_decrement_witness:
  "checkout real_ops 7 1 demo = (Inr Order_placed, demo_placed) \<and>
   line_1 \<in> set (cart_of 1 (cart_items demo)) \<and>
   distinct (map ci_product_id (cart_of 1 (cart_items demo))) \<and>
   list_all (\<lambda>x. 0 \<le> ci_quantity x) (cart_of 1 (cart_items demo)) \<and>
   get_product (products demo) 1 = Some prod_A \<and>
   get_product (products demo_placed) 1 = Some (prod_A\<lparr>p_stock := max 0 (10 - 2)\<rparr>)"
proof -
  have h2: "line_1 \<in> set (cart_of 1 (cart_items demo))" by (simp add: cart_of_def demo_defs)
  have h3: "distinct (map ci_product_id (cart_of 1 (cart_items demo)))"
    by (simp add: cart_of_def demo_defs)
  have h4: "list_all (\<lambda>x. 0 \<le> ci_quantity x) (cart_of 1 (cart_items demo))"
    by (simp add: cart_of_def demo_defs)
  from checkout_stock_decrement [OF demo_checkout h2 disjI1 [OF h3]] h3
  obtain p where "get_product (products demo) (ci_product_id line_1) = Some p"
    and "get_product (products demo_placed) (ci_product_id line_1) =
           Some (p\<lparr>p_stock := max 0 (p_stock p - ci_quantity line_1)\<rparr>)"
    by auto
  moreover have "get_product (products demo) 1 = Some prod_A"
    by (simp add: get_product_def demo_defs)
  moreover have "ci_product_id line_1 = 1" "ci_quantity line_1 = 2" "p_stock prod_A = 10"
    by (simp_all add: demo_defs)
  ultimately have "get_product (products demo_placed) 1 =
      Some (prod_A\<lparr>p_stock := max 0 (10 - 2)\<rparr>)" by simp
  with demo_checkout h2 h3 h4 \<open>get_product (products demo) 1 = Some prod_A\<close>
  show ?thesis by blast
qed

text \<open>
  \<^bold>\<open>C4.\<close> A checkout that placed the order appends one OrderItem per line of the cart,
  in cart order, each with the product and quantity of its line and with the price that
  the product had in the product table when checkout began. The price is a column of the
  OrderItem itself: whatever the product table becomes later, the OrderItems and the
  Orders, with their totals, are the same.
\<close>

theorem checkout_snapshots_live_price:
  assumes "checkout A now uid d = (Inr Order_placed, d')"
  shows "\<exists>new. order_items d' = order_items d @ new \<and>
           list_all2 (snapshot_of (products d) (next_id (map o_id (orders d))))
             (cart_of uid (cart_items d)) new \<and>
           (\<forall>ps. order_items (d'\<lparr>products := ps\<rparr>) = order_items d' \<and>
                 orders (d'\<lparr>products := ps\<rparr>) = orders d')"
proof -
  from checkout_placed [OF assms(1)] obtain tot where
    pl: "place_items (next_id (map o_id (orders d))) (cart_of uid (cart_items d))
              (d\<lparr>orders := orders d @
                  [\<lparr>o_id = next_id (map o_id (orders d)), o_user_id = uid,
                    o_total = tot, o_date = now\<rparr>]\<rparr>) = Inr d'"
    by blast
  from place_items_order_items [OF pl] show ?thesis by auto
qed

theorem checkout_snapshots_live_price_witness:
  "checkout real_ops 7 1 demo = (Inr Order_placed, demo_placed) \<and>
   (\<exists>new. order_items demo_placed = order_items demo @ new \<and>
      list_all2 (snapshot_of (products demo) 2) (cart_of 1 (cart_items demo)) new \<and>
      map oi_price new = [5, 10])"
proof -
  from checkout_snapshots_live_price [OF demo_checkout]
  obtain new where n: "order_items demo_placed = order_items demo @ new"
    and s: "list_all2 (snapshot_of (products demo) (next_id (map o_id (orders demo))))
             (cart_of 1 (cart_items demo)) new"
    by blast
  have two: "next_id (map o_id (orders demo)) = 2" by (simp add: demo_def)
  have s': "list_all2 (snapshot_of (products demo) 2) (cart_of 1 (cart_items demo)) new"
    using s unfolding two .
  have "order_items demo_placed = order_items demo @
     [\<lparr>oi_id = 2, oi_order_id = 2, oi_product_id = 1, oi_quantity = 2, oi_price = 5\<rparr>,
      \<lparr>oi_id = 3, oi_order_id = 2, oi_product_id = 2, oi_quantity = 1, oi_price = 10\<rparr>]"
    by (simp add: demo_def demo_placed_def)
  with n have "new =
     [\<lparr>oi_id = 2, oi_order_id = 2, oi_product_id = 1, oi_quantity = 2, oi_price = 5\<rparr>,
      \<lparr>oi_id = 3, oi_order_id = 2, oi_product_id = 2, oi_quantity = 1, oi_price = 10\<rparr>]"
    by (simp only: same_append_eq)
  then have p: "map oi_price new = [5, 10]" by simp
  show ?thesis
    by (rule conjI [OF demo_checkout]) (rule exI [of _ new], intro conjI n s' p)
qed

text \<open>
  \<^bold>\<open>C5.\<close> In a checkout that placed the order, so that the stock check passed, of a cart
  with at most one line per product, the floor of the stock decrement has no effect: for
  every line, the stock of its product is at least the quantity, the floored difference is
  the difference, and the product is left with exactly stock minus quantity. The condition
  on the cart is needed: the stock check compares every line with the stock of before, the
  decrement works on the stock that the earlier lines have left. One line per product is
  the shape of every cart that the routes build from an empty cart table
  (\<open>reachable_from_empty_carts\<close>); the cart table itself has no such constraint.
\<close>

theorem checkout_floor_never_triggers:
  assumes "checkout A now uid d = (Inr Order_placed, d')"
    and "distinct (map ci_product_id (cart_of uid (cart_items d)))"
    and "c \<in> set (cart_of uid (cart_items d))"
  shows "\<exists>p. get_product (products d) (ci_product_id c) = Some p \<and>
             0 \<le> p_stock p - ci_quantity c \<and>
             max 0 (p_stock p - ci_quantity c) = p_stock p - ci_quantity c \<and>
             get_product (products d') (ci_product_id c) =
               Some (p\<lparr>p_stock := p_stock p - ci_quantity c\<rparr>)"
proof -
  let ?cart = "cart_of uid (cart_items d)"
  let ?pid = "ci_product_id c"
  from checkout_placed [OF assms(1)] obtain tot where
    chk: "check_stock (products d) ?cart = Inr None"
    and pl: "place_items (next_id (map o_id (orders d))) ?cart
              (d\<lparr>orders := orders d @
                  [\<lparr>o_id = next_id (map o_id (orders d)), o_user_id = uid,
                    o_total = tot, o_date = now\<rparr>]\<rparr>) = Inr d'"
    by blast
  from check_stock_passed [OF chk] assms(3) obtain p where
    p: "get_product (products d) ?pid = Some p" and ge: "ci_quantity c \<le> p_stock p" by blast
  have "get_product (products d') ?pid =
      Some (p\<lparr>p_stock := dec_all (p_stock p) (quantities_for ?pid ?cart)\<rparr>)"
    using place_items_stock [OF pl, of ?pid p] p by simp
  then have "get_product (products d') ?pid =
      Some (p\<lparr>p_stock := max 0 (p_stock p - ci_quantity c)\<rparr>)"
    by (simp add: quantities_for_distinct [OF assms(2) assms(3)])
  with p ge show ?thesis by simp
qed

theorem checkout_floor_never_triggers_witness:
  "checkout real_ops 7 1 demo = (Inr Order_placed, demo_placed) \<and>
   distinct (map ci_product_id (cart_of 1 (cart_items demo))) \<and>
   line_2 \<in> set (cart_of 1 (cart_items demo)) \<and>
   get_product (products demo) 2 = Some prod_B \<and>
   get_product (products demo_placed) 2 = Some (prod_B\<lparr>p_stock := 3 - 1\<rparr>)"
proof -
  have h2: "distinct (map ci_product_id (cart_of 1 (cart_items demo)))"
    by (simp add: cart_of_def demo_defs)
  have h3: "line_2 \<in> set (cart_of 1 (cart_items demo))" by (simp add: cart_of_def demo_defs)
  from checkout_floor_never_triggers [OF demo_checkout h2 h3]
  obtain p where "get_product (products demo) (ci_product_id line_2) = Some p"
    and "get_product (products demo_placed) (ci_product_id line_2) =
           Some (p\<lparr>p_stock := p_stock p - ci_quantity line_2\<rparr>)"
    by auto
  moreover have b: "get_product (products demo) 2 = Some prod_B"
    by (simp add: get_product_def demo_defs)
  moreover have "ci_product_id line_2 = 2" "ci_quantity line_2 = 1" "p_stock prod_B = 3"
    by (simp_all add: demo_defs)
  ultimately have "get_product (products demo_placed) 2 = Some (prod_B\<lparr>p_stock := 3 - 1\<rparr>)"
    by simp
  with demo_checkout h2 h3 b show ?thesis by blast
qed

text \<open>
  Without that condition the floor acts. User 1 holds two lines for product A, of 10 units
  and of 1 unit, with 10 in stock: both lines pass the stock check, the order is placed,
  the first decrement leaves 0, and the second computes \<open>max 0 (0 - 1)\<close>, which is not
  \<open>0 - 1\<close>; the product ends with stock 0, not with stock minus the quantity of the line.
\<close>

theorem checkout_floor_triggers_counterexample:
  "quantities_ok dup_demo \<and>
   check_stock (products dup_demo) (cart_of 1 (cart_items dup_demo)) = Inr None \<and>
   checkout real_ops 7 1 dup_demo = (Inr Order_placed, dup_placed) \<and>
   dup_line_2 \<in> set (cart_of 1 (cart_items dup_demo)) \<and>
   get_product (products dup_demo) (ci_product_id dup_line_2) = Some prod_A \<and>
   ci_quantity dup_line_2 \<le> p_stock prod_A \<and>
   get_product (products (place_item 2 dup_line_1 prod_A dup_demo)) (ci_product_id dup_line_2)
     = Some (prod_A\<lparr>p_stock := 0\<rparr>) \<and>
   max 0 (0 - ci_quantity dup_line_2) \<noteq> 0 - ci_quantity dup_line_2 \<and>
   get_product (products dup_placed) (ci_product_id dup_line_2) = Some (prod_A\<lparr>p_stock := 0\<rparr>) \<and>
   prod_A\<lparr>p_stock := 0\<rparr> \<noteq> prod_A\<lparr>p_stock := p_stock prod_A - ci_quantity dup_line_2\<rparr>"
proof (intro conjI)
  show "quantities_ok dup_demo"
    by (simp add: quantities_ok_def quantity_ok_def dup_defs demo_defs)
  show "check_stock (products dup_demo) (cart_of 1 (cart_items dup_demo)) = Inr None"
    by (simp add: cart_of_def get_product_def dup_defs demo_defs)
  show "checkout real_ops 7 1 dup_demo = (Inr Order_placed, dup_placed)"
    by (simp add: checkout_def cart_of_def dup_defs demo_defs get_product_def place_item_def
          set_stock_def delete_cart_item_def Let_def)
  show "dup_line_2 \<in> set (cart_of 1 (cart_items dup_demo))"
    by (simp add: cart_of_def dup_defs demo_defs)
  show "get_product (products dup_demo) (ci_product_id dup_line_2) = Some prod_A"
    by (simp add: get_product_def dup_defs demo_defs)
  show "ci_quantity dup_line_2 \<le> p_stock prod_A" by (simp add: dup_defs demo_defs)
  show "get_product (products (place_item 2 dup_line_1 prod_A dup_demo)) (ci_product_id dup_line_2)
     = Some (prod_A\<lparr>p_stock := 0\<rparr>)"
    by (simp add: get_product_def place_item_def set_stock_def dup_defs demo_defs)
  show "max 0 (0 - ci_quantity dup_line_2) \<noteq> 0 - ci_quantity dup_line_2"
    by (simp add: dup_defs)
  show "get_product (products dup_placed) (ci_product_id dup_line_2) = Some (prod_A\<lparr>p_stock := 0\<rparr>)"
    by (simp add: get_product_def dup_defs demo_defs)
  show "prod_A\<lparr>p_stock := 0\<rparr> \<noteq> prod_A\<lparr>p_stock := p_stock prod_A - ci_quantity dup_line_2\<rparr>"
    by (simp add: dup_defs demo_defs)
qed

text \<open>
  \<^bold>\<open>C9.\<close> A checkout that placed the order, on a cart table whose primary keys are
  distinct, leaves the cart lines of every other user as they were; every product row
  keeps all its columns but the stock, and a product that is not in the user's cart keeps
  its stock as well; the Orders and OrderItems of before are still there, unchanged, with
  the new ones appended; users and categories are untouched.
\<close>

theorem checkout_frame:
  assumes "checkout A now uid d = (Inr Order_placed, d')"
    and "distinct (map ci_id (cart_items d))"
  shows "filter (\<lambda>x. ci_user_id x \<noteq> uid) (cart_items d') =
           filter (\<lambda>x. ci_user_id x \<noteq> uid) (cart_items d) \<and>
         list_all2 (\<lambda>p p'. same_but_stock p p' \<and>
                      (p_id p \<notin> ci_product_id ` set (cart_of uid (cart_items d)) \<longrightarrow> p' = p))
           (products d) (products d') \<and>
         (\<exists>ord. orders d' = orders d @ [ord]) \<and>
         (\<exists>new. order_items d' = order_items d @ new) \<and>
         users d' = users d \<and> categories d' = categories d"
proof -
  let ?cart = "cart_of uid (cart_items d)"
  from checkout_placed [OF assms(1)] obtain tot where
    pl: "place_items (next_id (map o_id (orders d))) ?cart
              (d\<lparr>orders := orders d @
                  [\<lparr>o_id = next_id (map o_id (orders d)), o_user_id = uid,
                    o_total = tot, o_date = now\<rparr>]\<rparr>) = Inr d'"
    by blast
  have "cart_items d' = filter (\<lambda>x. ci_id x \<notin> ci_id ` set ?cart) (cart_items d)"
    using place_items_cart [OF pl] by simp
  then have c: "filter (\<lambda>x. ci_user_id x \<noteq> uid) (cart_items d') =
           filter (\<lambda>x. ci_user_id x \<noteq> uid) (cart_items d)"
    using others_after_delete [OF assms(2), of uid] by simp
  have p: "list_all2 (\<lambda>p p'. same_but_stock p p' \<and>
                      (p_id p \<notin> ci_product_id ` set ?cart \<longrightarrow> p' = p))
           (products d) (products d')"
    using place_items_products [OF pl] by simp
  have f: "users d' = users d" "categories d' = categories d"
    "orders d' = orders d @ [\<lparr>o_id = next_id (map o_id (orders d)), o_user_id = uid,
                    o_total = tot, o_date = now\<rparr>]"
    using place_items_frame [OF pl] by simp_all
  from place_items_order_items [OF pl] obtain new where
    "order_items d' = order_items d @ new" by auto
  with c p f show ?thesis by blast
qed

theorem checkout_frame_witness:
  "checkout real_ops 7 1 demo = (Inr Order_placed, demo_placed) \<and>
   distinct (map ci_id (cart_items demo)) \<and>
   filter (\<lambda>x. ci_user_id x \<noteq> 1) (cart_items demo_placed) = [line_3] \<and>
   filter (\<lambda>x. ci_user_id x \<noteq> 1) (cart_items demo) = [line_3] \<and>
   users demo_placed = users demo \<and> categories demo_placed = categories demo"
proof -
  have h2: "distinct (map ci_id (cart_items demo))" by (simp add: demo_defs)
  have "filter (\<lambda>x. ci_user_id x \<noteq> 1) (cart_items demo) = [line_3]"
    by (simp add: demo_defs)
  with checkout_frame [OF demo_checkout h2] demo_checkout h2 show ?thesis by simp
qed

text \<open>
  \<^bold>\<open>C6.\<close> The cart routes keep every quantity of the cart table in [1,100]: the POST
  of \<^verbatim>\<open>/cart\<close> (bulk update or removal) and \<^verbatim>\<open>/add_to_cart\<close> turn a table with all
  quantities in range into one with all quantities in range, for every form, every
  product id and every reading of numbers. A form field whose value is not a number
  changes nothing, and the quantity that an update writes is clamped into [1,100],
  whatever number was sent.
\<close>

theorem cart_quantities_stay_in_range:
  "(quantities_ok d \<longrightarrow>
      quantities_ok (cart_post py_int uid form d) \<and>
      quantities_ok (snd (add_to_cart uid product_id d))) \<and>
   (py_int (snd kv) = None \<longrightarrow> update_quantity py_int uid kv d = d) \<and>
   1 \<le> sanitize q \<and> sanitize q \<le> 100"
  using cart_post_ok [of d py_int uid form] add_to_cart_ok [of d uid product_id]
    update_quantity_non_numeric [of py_int kv uid d] sanitize_range [of q]
  by blast

theorem cart_quantities_stay_in_range_witness:
  "quantities_ok demo \<and>
   dec_int (snd (''quantity_2'', ''abc'')) = None \<and>
   quantities_ok (cart_post dec_int 1
      [(''update'', ''1''), (''quantity_1'', ''250''), (''quantity_2'', ''abc'')] demo) \<and>
   quantities_ok (snd (add_to_cart 1 1 demo)) \<and>
   update_quantity dec_int 1 (''quantity_2'', ''abc'') demo = demo \<and>
   sanitize 250 = 100 \<and> sanitize (- 3) = 1"
proof -
  have h1: "quantities_ok demo"
    by (simp add: quantities_ok_def quantity_ok_def demo_defs)
  have h2: "dec_int (snd (''quantity_2'', ''abc'')) = None"
    by (simp add: dec_nat_def is_digit_def)
  have s: "sanitize 250 = 100" "sanitize (- 3) = 1" by (simp_all add: sanitize_def)
  from cart_quantities_stay_in_range [of demo dec_int 1
      "[(''update'', ''1''), (''quantity_1'', ''250''), (''quantity_2'', ''abc'')]" 1
      "(''quantity_2'', ''abc'')" 250] h1 h2 s
  show ?thesis by simp
qed

text \<open>
  \<^bold>\<open>C7.\<close> With \<^verbatim>\<open>sort=price_high\<close> the items of the catalog page are in non-increasing
  price order, and for every request the page holds at most 6 items.
\<close>

theorem home_price_high_sorted_page_size:
  "(map_of args ''sort'' = Some ''price_high'' \<longrightarrow>
      sorted_wrt (\<lambda>a b. p_price b \<le> p_price a) (fst (home py_int contains args d)))
   \<and> length (fst (home py_int contains args d)) \<le> 6"
proof -
  obtain page q where h: "fst (home py_int contains args d) =
      paginate page 6
        (if map_of args ''sort'' = Some ''price_low'' then sort_key p_price q
         else if map_of args ''sort'' = Some ''price_high'' then rev (sort_key p_price q)
         else sort_key p_name q)"
    using home_items [of py_int contains args d] by blast
  show ?thesis unfolding h
    by (simp add: length_paginate sorted_wrt_paginate sorted_desc_rev_sort_key)
qed

theorem home_price_high_sorted_page_size_witness:
  "map_of [(''sort'', ''price_high'')] ''sort'' = Some ''price_high'' \<and>
   fst (home dec_int (\<lambda>name search. True) [(''sort'', ''price_high'')] demo) = [prod_B, prod_A] \<and>
   sorted_wrt (\<lambda>a b. p_price b \<le> p_price a)
     (fst (home dec_int (\<lambda>name search. True) [(''sort'', ''price_high'')] demo)) \<and>
   length (fst (home dec_int (\<lambda>name search. True) [(''sort'', ''price_high'')] demo)) \<le> 6"
proof -
  have h: "map_of [(''sort'', ''price_high'')] ''sort'' = Some ''price_high''" by simp
  from home_price_high_sorted_page_size
    [of "[(''sort'', ''price_high'')]" dec_int "\<lambda>name search. True" demo] h demo_home
  show ?thesis by simp
qed

text \<open>
  \<^bold>\<open>C10.\<close> Every item of the catalog page is a product whose \<open>category_id\<close> is set and is
  the id of an existing Category: a product without category, or with a category that
  does not exist, is on no page, whatever the search, category filter, sort and page.
\<close>

theorem home_only_joined_products:
  "p \<in> set (fst (home py_int contains args d)) \<Longrightarrow>
     p \<in> set (products d) \<and> (\<exists>c \<in> set (categories d). p_category_id p = Some (cat_id c))"
proof -
  assume a: "p \<in> set (fst (home py_int contains args d))"
  obtain page q where h: "fst (home py_int contains args d) =
      paginate page 6
        (if map_of args ''sort'' = Some ''price_low'' then sort_key p_price q
         else if map_of args ''sort'' = Some ''price_high'' then rev (sort_key p_price q)
         else sort_key p_name q)"
    and q: "set q \<subseteq> set (join_category (products d) (categories d))"
    using home_items [of py_int contains args d] by blast
  from a have "p \<in> set q" unfolding h
    by (auto split: if_splits dest!: in_paginate)
  with q have "p \<in> set (join_category (products d) (categories d))" by blast
  then show ?thesis by (simp add: set_join_category)
qed

theorem home_only_joined_products_witness:
  "prod_B \<in> set (fst (home dec_int (\<lambda>name search. True) [(''sort'', ''price_high'')] demo)) \<and>
   prod_B \<in> set (products demo) \<and> p_category_id prod_B = Some 1 \<and>
   prod_C \<notin> set (fst (home dec_int (\<lambda>name search. True) [(''sort'', ''price_high'')] demo)) \<and>
   prod_D \<notin> set (fst (home dec_int (\<lambda>name search. True) [(''sort'', ''price_high'')] demo))"
proof -
  have h: "prod_B \<in> set (fst (home dec_int (\<lambda>name search. True) [(''sort'', ''price_high'')] demo))"
    by (simp add: demo_home)
  have c: "prod_C \<notin> set [prod_B, prod_A]" "prod_D \<notin> set [prod_B, prod_A]"
    by (simp_all add: prod_A_def prod_B_def prod_C_def prod_D_def)
  have b: "p_category_id prod_B = Some 1" by (simp add: prod_B_def)
  from home_only_joined_products [OF h] h b c show ?thesis by (simp add: demo_home)
qed

text \<open>
  \<^bold>\<open>C8.\<close> A registration request (a form with email, password, name and address) whose
  email is the email of a stored user ends in the message that the email is already
  registered and leaves the database, and so the stored users, as it was. With an email
  that no stored user has, it appends one user with that email and the hash of the
  password; when the hashing library accepts a password against its own hash of it, a
  login with that email and password on the new database succeeds as that user.
\<close>

theorem register_duplicate_rejected_fresh_can_login:
  assumes "map_of form ''email'' = Some email" and "map_of form ''password'' = Some pw"
    and "map_of form ''name'' = Some name" and "map_of form ''address'' = Some address"
  shows "(email \<in> set (map u_email (users d)) \<longrightarrow>
            register gen form d = (Inr Email_already_registered, d)) \<and>
         (email \<notin> set (map u_email (users d)) \<longrightarrow>
            (\<exists>u. register gen form d = (Inr Registered, d\<lparr>users := users d @ [u]\<rparr>) \<and>
                 u_email u = email \<and> u_password u = gen pw \<and>
                 u_id u \<notin> set (map u_id (users d)) \<and>
                 (chk (gen pw) pw \<and> map_of login_form ''email'' = Some email \<and>
                  map_of login_form ''password'' = Some pw \<longrightarrow>
                    login chk login_form (d\<lparr>users := users d @ [u]\<rparr>)
                      = Inr (Logged_in (u_id u)))))"
proof (intro conjI impI)
  assume "email \<in> set (map u_email (users d))"
  then have "first_user (users d) email \<noteq> None" by (simp add: first_user_None)
  with assms show "register gen form d = (Inr Email_already_registered, d)"
    by (simp add: register_def)
next
  assume a: "email \<notin> set (map u_email (users d))"
  let ?u = "\<lparr>u_id = next_id (map u_id (users d)), u_email = email,
              u_password = gen pw, u_name = name, u_address = address\<rparr>"
  from a have none: "first_user (users d) email = None" by (simp add: first_user_None)
  with assms have r: "register gen form d = (Inr Registered, d\<lparr>users := users d @ [?u]\<rparr>)"
    by (simp add: register_def)
  have f: "first_user (users d @ [?u]) email = Some ?u"
    using none by (rule first_user_append_new) simp
  have l: "chk (gen pw) pw \<and> map_of login_form ''email'' = Some email \<and>
           map_of login_form ''password'' = Some pw \<longrightarrow>
        login chk login_form (d\<lparr>users := users d @ [?u]\<rparr>) = Inr (Logged_in (u_id ?u))"
    using f by (simp add: login_def)
  have i: "u_id ?u \<notin> set (map u_id (users d))"
    using next_id_fresh [of "map u_id (users d)"] by simp
  show "\<exists>u. register gen form d = (Inr Registered, d\<lparr>users := users d @ [u]\<rparr>) \<and>
                 u_email u = email \<and> u_password u = gen pw \<and>
                 u_id u \<notin> set (map u_id (users d)) \<and>
                 (chk (gen pw) pw \<and> map_of login_form ''email'' = Some email \<and>
                  map_of login_form ''password'' = Some pw \<longrightarrow>
                    login chk login_form (d\<lparr>users := users d @ [u]\<rparr>)
                      = Inr (Logged_in (u_id u)))"
    using r l i by (intro exI [of _ ?u]) simp
qed

theorem register_duplicate_rejected_fresh_can_login_witness:
  "register toy_hash
     [(''email'', ''demo@example.com''), (''password'', ''x''), (''name'', ''N''),
      (''address'', ''A'')] demo = (Inr Email_already_registered, demo) \<and>
   (\<exists>u. register toy_hash
          [(''email'', ''new@example.com''), (''password'', ''pw1''), (''name'', ''N''),
           (''address'', ''A'')] demo = (Inr Registered, demo\<lparr>users := users demo @ [u]\<rparr>) \<and>
        u_id u = 2 \<and>
        login toy_check [(''email'', ''new@example.com''), (''password'', ''pw1'')]
          (demo\<lparr>users := users demo @ [u]\<rparr>) = Inr (Logged_in 2))"
proof -
  let ?f1 = "[(''email'', ''demo@example.com''), (''password'', ''x''), (''name'', ''N''),
      (''address'', ''A'')]"
  let ?f2 = "[(''email'', ''new@example.com''), (''password'', ''pw1''), (''name'', ''N''),
           (''address'', ''A'')]"
  let ?l = "[(''email'', ''new@example.com''), (''password'', ''pw1'')]"
  have dup: "''demo@example.com'' \<in> set (map u_email (users demo))"
    by (simp add: demo_def demo_user_def)
  have fresh: "''new@example.com'' \<notin> set (map u_email (users demo))"
    by (simp add: demo_def demo_user_def)
  have ok: "toy_check (toy_hash ''pw1'') ''pw1''" by (simp add: toy_check_def)
  have a: "register toy_hash ?f1 demo = (Inr Email_already_registered, demo)"
    using register_duplicate_rejected_fresh_can_login
      [of ?f1 "''demo@example.com''" "''x''" "''N''" "''A''" demo toy_hash] dup
    by simp
  from register_duplicate_rejected_fresh_can_login
      [of ?f2 "''new@example.com''" "''pw1''" "''N''" "''A''" demo toy_hash toy_check ?l]
    fresh ok
  obtain u where r: "register toy_hash ?f2 demo = (Inr Registered, demo\<lparr>users := users demo @ [u]\<rparr>)"
    and l: "login toy_check ?l (demo\<lparr>users := users demo @ [u]\<rparr>) = Inr (Logged_in (u_id u))"
    by auto
  have "register toy_hash ?f2 demo =
      (Inr Registered, demo\<lparr>users := users demo @
         [\<lparr>u_id = 2, u_email = ''new@example.com'', u_password = toy_hash ''pw1'',
           u_name = ''N'', u_address = ''A''\<rparr>]\<rparr>)"
    by (simp add: register_def first_user_def demo_def demo_user_def)
  with r have "demo\<lparr>users := users demo @ [u]\<rparr> = demo\<lparr>users := users demo @
         [\<lparr>u_id = 2, u_email = ''new@example.com'', u_password = toy_hash ''pw1'',
           u_name = ''N'', u_address = ''A''\<rparr>]\<rparr>" by simp
  then have "users (demo\<lparr>users := users demo @ [u]\<rparr>) = users (demo\<lparr>users := users demo @
         [\<lparr>u_id = 2, u_email = ''new@example.com'', u_password = toy_hash ''pw1'',
           u_name = ''N'', u_address = ''A''\<rparr>]\<rparr>)" by (rule arg_cong)
  then have "u = \<lparr>u_id = 2, u_email = ''new@example.com'', u_password = toy_hash ''pw1'',
           u_name = ''N'', u_address = ''A''\<rparr>" by simp
  then have id: "u_id u = 2" by simp
  have l2: "login toy_check ?l (demo\<lparr>users := users demo @ [u]\<rparr>) = Inr (Logged_in 2)"
    using l unfolding id .
  show ?thesis
    by (rule conjI [OF a]) (rule exI [of _ u], intro conjI r id l2)
qed

end
